theory Spec2Isabelle
  imports
    Complex_Main
    "HOL-Library.Word"
    "HOL-Library.Signed_Division"
    "HOL-Library.Char_ord"
    "HOL-Library.List_Lexorder"
begin

section \<open>Alert instance state: pkg/services/ngalert/state/state.go\<close>

text \<open>
  The Go source mutates a \<open>*State\<close> in place. The embedding passes the state in and
  returns the updated one. Receivers and rule pointers are taken to be non-nil. Go's
  \<open>int64\<close> and \<open>time.Duration\<close> are 64-bit words read as two's complement (\<open>sint\<close>);
  \<open>*\<close> wraps around as in Go.
\<close>

subsection \<open>Go's time package\<close>

text \<open>
  The standard library is not part of the repository: what state.go calls of it is
  written down from its documented behaviour and, for \<open>Duration.Seconds\<close>, from its
  source text.
\<close>

type_synonym int64 = "64 word"

text \<open>\<open>time.Duration\<close>: a signed 64-bit count of nanoseconds.\<close>

type_synonym Duration = "64 word"

text \<open>
  \<open>time.Time\<close>: the instant, as the number of nanoseconds since the zero time
  (January 1, year 1, 00:00:00 UTC). Location, monotonic clock reading and the finite
  range of the seconds counter (about 292 billion years) are left out. Go's \<open>==\<close> on
  two times compares the location pointer and the monotonic reading as well: \<open>Equals\<close>
  below takes them as a \<open>Time_repr\<close> beside each time it compares.
\<close>

type_synonym Time = int

definition time_Second :: Duration where
  "time_Second = 1000000000"

definition minDuration :: Duration where
  "minDuration = word_of_int (- (2 ^ 63))"

definition maxDuration :: Duration where
  "maxDuration = word_of_int (2 ^ 63 - 1)"

definition Time_IsZero :: "Time \<Rightarrow> bool" where
  "Time_IsZero t = (t = 0)"

definition Time_Add :: "Time \<Rightarrow> Duration \<Rightarrow> Time" where
  "Time_Add t d = t + sint d"

text \<open>
  \<open>t.Sub(u)\<close> is the duration \<open>t - u\<close>; when it does not fit a Duration, the minimum
  or the maximum duration is returned.
\<close>

definition Time_Sub :: "Time \<Rightarrow> Time \<Rightarrow> Duration" where
  "Time_Sub t u =
     (let d = t - u
      in if d < - (2 ^ 63) then minDuration
         else if 2 ^ 63 - 1 < d then maxDuration
         else word_of_int d)"

definition Time_Before :: "Time \<Rightarrow> Time \<Rightarrow> bool" where
  "Time_Before t u = (t < u)"

definition Time_Equal :: "Time \<Rightarrow> Time \<Rightarrow> bool" where
  "Time_Equal t u = (t = u)"

subsubsection \<open>float64, as far as \<open>Duration.Seconds\<close> needs it\<close>

text \<open>
  A finite float64 is the rational it denotes. \<open>round_float64\<close> rounds a rational to
  the nearest number with a 53-bit significand, ties to even. The exponent is unbounded:
  the magnitudes that \<open>Duration.Seconds\<close> produces (zero, or between \<open>10^-9\<close> and
  \<open>10^10\<close>) are far from overflow and from the subnormal range.
\<close>

type_synonym float64 = rat

function bitLen :: "int \<Rightarrow> int" where
  "bitLen n = (if n \<le> 0 then 0 else 1 + bitLen (n div 2))"
  by pat_completeness auto
termination
  by (relation "measure nat") auto

declare bitLen.simps [simp del]

text \<open>For \<open>x > 0\<close>: the exponent \<open>e\<close> with \<open>2^e \<le> x < 2^(e+1)\<close>.\<close>

definition ilog2 :: "rat \<Rightarrow> int" where
  "ilog2 x =
     (let (p, q) = quotient_of x;
          e0 = bitLen p - bitLen q
      in if x < 2 powi e0 then e0 - 1 else e0)"

definition roundHalfEven :: "rat \<Rightarrow> int" where
  "roundHalfEven m =
     (let f = \<lfloor>m\<rfloor>; r = m - of_int f
      in if r < 1 / 2 then f
         else if 1 / 2 < r then f + 1
         else if even f then f else f + 1)"

definition round_float64 :: "rat \<Rightarrow> float64" where
  "round_float64 x =
     (if x = 0 then 0
      else let ulp = 2 powi (ilog2 \<bar>x\<bar> - 52)
           in sgn x * of_int (roundHalfEven (\<bar>x\<bar> / ulp)) * ulp)"

text \<open>
  \<^verbatim>\<open>func (d Duration) Seconds() float64 {
      sec := d / Second
      nsec := d % Second
      return float64(sec) + float64(nsec)/1e9 }\<close>
  Go's \<open>/\<close> and \<open>%\<close> on integers truncate towards zero (\<open>sdiv\<close>, \<open>smod\<close>).
\<close>

definition Duration_Seconds :: "Duration \<Rightarrow> float64" where
  "Duration_Seconds d =
     (let sec = sint d sdiv 1000000000;
          nsec = sint d smod 1000000000
      in round_float64
           (round_float64 (of_int sec)
            + round_float64 (round_float64 (of_int nsec) / 1000000000)))"

text \<open>The conversion \<open>int64(f)\<close> discards the fraction (truncation towards zero).\<close>

definition int64_of_float64 :: "float64 \<Rightarrow> int64" where
  "int64_of_float64 f = word_of_int (if f < 0 then - \<lfloor>- f\<rfloor> else \<lfloor>f\<rfloor>)"

subsection \<open>Collaborating packages\<close>

text \<open>\<open>eval.State\<close>, the categorical state.\<close>

datatype eval_State = eval_Normal | eval_Alerting | eval_Pending | eval_NoData | eval_Error

text \<open>
  Modelled from the spec: \<open>eval.State.String\<close> is not among the sources; it is the
  "rendered categorical-state textual form", one name for each state.
\<close>

fun eval_State_String :: "eval_State \<Rightarrow> string" where
  "eval_State_String eval_Normal = ''Normal''"
| "eval_State_String eval_Alerting = ''Alerting''"
| "eval_State_String eval_Pending = ''Pending''"
| "eval_State_String eval_NoData = ''NoData''"
| "eval_State_String eval_Error = ''Error''"

text \<open>
  Modelled from the spec: the error values; \<open>expr.QueryError\<close> is not among the
  sources. An error is an ordinary error, a structured query error carrying an
  expression reference and a message, or an error wrapping another one.
\<close>

datatype error =
    OrdinaryError string
  | QueryError string string
  | WrappedError string error

text \<open>
  Modelled from the spec: the error classification helper (\<open>errors.As\<close> with a
  \<open>QueryError\<close> target). It finds the first query error of the chain, with its
  reference and its message, and finds none in an ordinary error.
\<close>

fun As_QueryError :: "error \<Rightarrow> (string \<times> string) option" where
  "As_QueryError (OrdinaryError msg) = None"
| "As_QueryError (QueryError refID msg) = Some (refID, msg)"
| "As_QueryError (WrappedError msg err) = As_QueryError err"

text \<open>
  Modelled from the spec: the helper on an \<open>error\<close> value that may be nil; no error
  carries no query error.
\<close>

definition errors_As_QueryError :: "error option \<Rightarrow> (string \<times> string) option" where
  "errors_As_QueryError e = (case e of None \<Rightarrow> None | Some err \<Rightarrow> As_QueryError err)"

text \<open>
  A Go \<open>map[string]string\<close> (\<open>data.Labels\<close>, the annotations): \<open>None\<close> is the nil map,
  \<open>Some xs\<close> a map holding the entries of the association list \<open>xs\<close>, where the first
  pair of a key counts. Reading a nil map finds nothing; assigning to an entry of a nil
  map panics.
\<close>

type_synonym Labels = "(string \<times> string) list option"

definition entries :: "Labels \<Rightarrow> (string \<rightharpoonup> string)" where
  "entries l = (case l of None \<Rightarrow> Map.empty | Some xs \<Rightarrow> map_of xs)"

text \<open>\<open>m[k] = v\<close> on a map that is not nil: replace the entry of \<open>k\<close>, or add one.\<close>

fun assign :: "string \<Rightarrow> string \<Rightarrow> (string \<times> string) list \<Rightarrow> (string \<times> string) list" where
  "assign k v [] = [(k, v)]"
| "assign k v (p # ps) = (if fst p = k then (k, v) # ps else p # assign k v ps)"

text \<open>The parts of \<open>eval.Result\<close> and of \<open>ngModels.AlertRule\<close> that the code reads.\<close>

record Result =
  Result_State :: eval_State
  Result_Error :: "error option"
  EvaluatedAt :: Time

record AlertQuery =
  RefID :: string
  DatasourceUID :: string

text \<open>
  The policies are compared against named constants, with no branch for other values:
  each type has one more constructor for any value that is none of the named ones.
\<close>

datatype ExecutionErrorState = AlertingErrState | ErrorErrState | OtherErrState

datatype NoDataState = ngModels_Alerting | ngModels_NoData | ngModels_OK | ngModels_Other

record AlertRule =
  For :: Duration
  IntervalSeconds :: int64
  ExecErrState :: ExecutionErrorState
  NoDataState :: NoDataState
  Data :: "AlertQuery list"

subsection \<open>The state\<close>

text \<open>\<open>Values\<close> is never read by the functions below.\<close>

record Evaluation =
  EvaluationTime :: Time
  EvaluationState :: eval_State
  EvaluationString :: string
  Values :: "(string \<times> float64 option) list option"

record State =
  AlertRuleUID :: string
  OrgID :: int64
  CacheId :: string
  State :: eval_State
  Resolved :: bool
  Results :: "Evaluation list"
  StartsAt :: Time
  EndsAt :: Time
  LastEvaluationTime :: Time
  EvaluationDuration :: Duration
  LastSentAt :: Time
  Annotations :: Labels
  Labels :: Labels
  Error :: "error option"

subsection \<open>Panics\<close>

text \<open>
  A run-time panic is a value. Since the source updates the state in place, a panic
  leaves the updates made before it: \<open>Panicked p a\<close> carries the state as it is when
  the panic \<open>p\<close> is raised, \<open>Returned a\<close> the state when the function returns.
\<close>

datatype panic = NilMapAssignment | IntegerDivideByZero | MakeSliceLenOutOfRange

datatype outcome = Returned (state_of: State) | Panicked panic (state_of: State)

subsection \<open>The transitions\<close>

text \<open>
  \<open>ResendDelay\<close> is a package variable declared outside state.go: it is the first
  argument of every function that depends on it.
\<close>

definition setEndsAt :: "Duration \<Rightarrow> State \<Rightarrow> AlertRule \<Rightarrow> Result \<Rightarrow> State" where
  "setEndsAt ResendDelay a alertRule result =
     (let ends =
        (if sint (int64_of_float64 (Duration_Seconds ResendDelay)) < sint (IntervalSeconds alertRule)
         then time_Second * IntervalSeconds alertRule
         else ResendDelay)
      in a\<lparr>EndsAt := Time_Add (EvaluatedAt result) (ends * 3)\<rparr>)"

definition resultNormal :: "State \<Rightarrow> AlertRule \<Rightarrow> Result \<Rightarrow> State" where
  "resultNormal a alertRule result =
     (let a1 = a\<lparr>Error := Result_Error result\<rparr>;
          a2 = (if State a1 \<noteq> eval_Normal
                then a1\<lparr>EndsAt := EvaluatedAt result, StartsAt := EvaluatedAt result\<rparr>
                else a1)
      in a2\<lparr>State := eval_Normal\<rparr>)"

definition resultAlerting :: "Duration \<Rightarrow> State \<Rightarrow> AlertRule \<Rightarrow> Result \<Rightarrow> State" where
  "resultAlerting ResendDelay a alertRule result =
     (let a1 = a\<lparr>Error := Result_Error result\<rparr>
      in case State a1 of
           eval_Alerting \<Rightarrow> setEndsAt ResendDelay a1 alertRule result
         | eval_Pending \<Rightarrow>
             (if sint (For alertRule) < sint (Time_Sub (EvaluatedAt result) (StartsAt a1))
              then setEndsAt ResendDelay
                     (a1\<lparr>State := eval_Alerting, StartsAt := EvaluatedAt result\<rparr>)
                     alertRule result
              else a1)
         | _ \<Rightarrow>
             (let a2 = setEndsAt ResendDelay (a1\<lparr>StartsAt := EvaluatedAt result\<rparr>)
                         alertRule result
              in if \<not> (0 < sint (For alertRule))
                 then a2\<lparr>State := eval_Alerting\<rparr>
                 else a2\<lparr>State := eval_Pending\<rparr>))"

text \<open>
  The loop over \<open>alertRule.Data\<close> in \<open>resultError\<close>: at the first definition whose
  \<open>RefID\<close> is the query error's, the two labels are assigned and the loop is left.
\<close>

fun setQueryLabels :: "string \<Rightarrow> AlertQuery list \<Rightarrow> State \<Rightarrow> outcome" where
  "setQueryLabels refID [] a = Returned a"
| "setQueryLabels refID (next # rest) a =
     (if RefID next = refID
      then (case Labels a of
              None \<Rightarrow> Panicked NilMapAssignment a
            | Some m \<Rightarrow>
                Returned (a\<lparr>Labels :=
                  Some (assign ''datasource_uid'' (DatasourceUID next)
                         (assign ''ref_id'' (RefID next) m))\<rparr>))
      else setQueryLabels refID rest a)"

definition setErrorAnnotation :: "string \<Rightarrow> State \<Rightarrow> outcome" where
  "setErrorAnnotation msg a =
     (case Annotations a of
        None \<Rightarrow> Panicked NilMapAssignment a
      | Some m \<Rightarrow> Returned (a\<lparr>Annotations := Some (assign ''Error'' msg m)\<rparr>))"

definition resultError :: "Duration \<Rightarrow> State \<Rightarrow> AlertRule \<Rightarrow> Result \<Rightarrow> outcome" where
  "resultError ResendDelay a alertRule result =
     (let a1 = a\<lparr>Error := Result_Error result\<rparr>;
          a2 = (if Time_IsZero (StartsAt a1) then a1\<lparr>StartsAt := EvaluatedAt result\<rparr> else a1);
          a3 = setEndsAt ResendDelay a2 alertRule result
      in if ExecErrState alertRule = AlertingErrState
         then Returned (a3\<lparr>State := eval_Alerting\<rparr>)
         else if ExecErrState alertRule = ErrorErrState
         then (let a4 = a3\<lparr>State := eval_Error\<rparr>
               in case errors_As_QueryError (Error a4) of
                    None \<Rightarrow> Returned a4
                  | Some (refID, msg) \<Rightarrow>
                      (case setQueryLabels refID (Data alertRule) a4 of
                         Panicked p a5 \<Rightarrow> Panicked p a5
                       | Returned a5 \<Rightarrow> setErrorAnnotation msg a5))
         else Returned a3)"

definition resultNoData :: "Duration \<Rightarrow> State \<Rightarrow> AlertRule \<Rightarrow> Result \<Rightarrow> State" where
  "resultNoData ResendDelay a alertRule result =
     (let a1 = a\<lparr>Error := Result_Error result\<rparr>;
          a2 = (if Time_IsZero (StartsAt a1) then a1\<lparr>StartsAt := EvaluatedAt result\<rparr> else a1);
          a3 = setEndsAt ResendDelay a2 alertRule result
      in case NoDataState alertRule of
           ngModels_Alerting \<Rightarrow> a3\<lparr>State := eval_Alerting\<rparr>
         | ngModels_NoData \<Rightarrow> a3\<lparr>State := eval_NoData\<rparr>
         | ngModels_OK \<Rightarrow> a3\<lparr>State := eval_Normal\<rparr>
         | ngModels_Other \<Rightarrow> a3)"

text \<open>
  Modelled from the spec: the dispatcher \<open>Transition(state, rule, result)\<close> is not in
  state.go. It applies the branch of the result's outcome (Normal, Alerting, Error or
  NoData). Results do not carry Pending; for it the state is returned as it is.
\<close>

definition Transition :: "Duration \<Rightarrow> State \<Rightarrow> AlertRule \<Rightarrow> Result \<Rightarrow> outcome" where
  "Transition ResendDelay a alertRule result =
     (case Result_State result of
        eval_Normal \<Rightarrow> Returned (resultNormal a alertRule result)
      | eval_Alerting \<Rightarrow> Returned (resultAlerting ResendDelay a alertRule result)
      | eval_Error \<Rightarrow> resultError ResendDelay a alertRule result
      | eval_NoData \<Rightarrow> Returned (resultNoData ResendDelay a alertRule result)
      | eval_Pending \<Rightarrow> Returned a)"

subsection \<open>NeedsSending\<close>

definition NeedsSending :: "State \<Rightarrow> Duration \<Rightarrow> bool" where
  "NeedsSending a resendDelay =
     (if State a = eval_Pending \<or> State a = eval_Normal \<and> \<not> Resolved a then False
      else let nextSent = Time_Add (LastSentAt a) resendDelay
           in Time_Before nextSent (LastEvaluationTime a)
              \<or> Time_Equal nextSent (LastEvaluationTime a))"

subsection \<open>Equals\<close>

text \<open>The keys of a map, each once, in the order of the association list.\<close>

definition keys :: "Labels \<Rightarrow> string list" where
  "keys l = (case l of None \<Rightarrow> [] | Some xs \<Rightarrow> remdups (map fst xs))"

text \<open>\<open>m[k]\<close>: the value of the key, the empty string where the map has none.\<close>

definition index :: "Labels \<Rightarrow> string \<Rightarrow> string" where
  "index l k = (case entries l k of None \<Rightarrow> [] | Some v \<Rightarrow> v)"

text \<open>Strings joined with a comma and a space between them.\<close>

fun join :: "string list \<Rightarrow> string" where
  "join [] = []"
| "join [x] = x"
| "join (x # y # ys) = x @ '', '' @ join (y # ys)"

text \<open>
  Modelled from the spec: \<open>data.Labels.String\<close> belongs to an external package. It is
  the canonical textual form of a mapping, "order-independent over the mapping's entries
  (sorted by key)": the keys of the map are collected and sorted, and each is written
  with its value, \<open>key=value\<close>, the entries separated by a comma and a space.
\<close>

definition Labels_String :: "Labels \<Rightarrow> string" where
  "Labels_String l = join (map (\<lambda>k. k @ ''='' @ index l k) (sort (keys l)))"

text \<open>
  \<open>Equals\<close> compares three times with \<open>==\<close>, which on a \<open>time.Time\<close> compares the
  whole value: the instant, the monotonic clock reading (if the time has one) and the
  location pointer. \<open>Time_repr\<close> holds the two parts that \<open>Time\<close> leaves out: the
  reading, and the address the pointer holds (\<open>None\<close> for the nil pointer, which is UTC;
  two pointers are equal when they hold the same address). \<open>State_times\<close> is a state
  with these parts of \<open>StartsAt\<close>, \<open>EndsAt\<close> and \<open>LastEvaluationTime\<close>.
\<close>

record Time_repr =
  monotonic :: "int64 option"
  location :: "nat option"

record State_times = State +
  StartsAt_repr :: Time_repr
  EndsAt_repr :: Time_repr
  LastEvaluationTime_repr :: Time_repr

definition Equals :: "State_times \<Rightarrow> State_times \<Rightarrow> bool" where
  "Equals a b \<longleftrightarrow>
     AlertRuleUID a = AlertRuleUID b \<and>
     OrgID a = OrgID b \<and>
     CacheId a = CacheId b \<and>
     Labels_String (Labels a) = Labels_String (Labels b) \<and>
     eval_State_String (State a) = eval_State_String (State b) \<and>
     (StartsAt a = StartsAt b \<and> StartsAt_repr a = StartsAt_repr b) \<and>
     (EndsAt a = EndsAt b \<and> EndsAt_repr a = EndsAt_repr b) \<and>
     (LastEvaluationTime a = LastEvaluationTime b \<and>
      LastEvaluationTime_repr a = LastEvaluationTime_repr b) \<and>
     Labels_String (Annotations a) = Labels_String (Annotations b)"

subsection \<open>TrimResults\<close>

text \<open>
  \<open>int\<close> has 64 bits (as on every 64-bit platform), so \<open>int(numBuckets)\<close> is
  \<open>numBuckets\<close>. The division panics on a zero divisor, and \<open>make\<close> panics on a negative
  length; both happen before the state is touched. \<open>numBuckets\<close> is the local variable
  of that name, once it has its final value.
\<close>

definition numBuckets :: "AlertRule \<Rightarrow> int64" where
  "numBuckets alertRule =
     (let n = 2 * (word_of_int
                     (sint (int64_of_float64 (Duration_Seconds (For alertRule)))
                      sdiv sint (IntervalSeconds alertRule)) :: int64)
      in if n = 0 then 10 else n)"

definition TrimResults :: "State \<Rightarrow> AlertRule \<Rightarrow> outcome" where
  "TrimResults a alertRule =
     (if IntervalSeconds alertRule = 0 then Panicked IntegerDivideByZero a
      else if int (length (Results a)) < sint (numBuckets alertRule) then Returned a
      else if sint (numBuckets alertRule) < 0 then Panicked MakeSliceLenOutOfRange a
      else Returned
             (a\<lparr>Results :=
                  drop (length (Results a) - nat (sint (numBuckets alertRule))) (Results a)\<rparr>))"

subsection \<open>Example values\<close>

text \<open>
  A rule with \<open>For\<close> of five minutes evaluated every minute, a resend delay of thirty
  seconds, an instance that has been Pending since \<open>exampleStart\<close>, and results six
  minutes and one minute later. Times are in nanoseconds.
\<close>

definition exampleDelay :: Duration where
  "exampleDelay = 30000000000"

definition exampleRule :: AlertRule where
  "exampleRule =
     \<lparr>For = 300000000000, IntervalSeconds = 60, ExecErrState = ErrorErrState,
      NoDataState = ngModels_NoData,
      Data = [\<lparr>RefID = ''A'', DatasourceUID = ''ds1''\<rparr>]\<rparr>"

definition exampleStart :: Time where
  "exampleStart = 63770000000000000000"

definition exampleState :: State where
  "exampleState =
     \<lparr>AlertRuleUID = ''rule-1'', OrgID = 1, CacheId = ''cache-1'', State = eval_Pending,
      Resolved = False, Results = [], StartsAt = exampleStart,
      EndsAt = exampleStart + 180000000000,
      LastEvaluationTime = exampleStart, EvaluationDuration = 0, LastSentAt = 0,
      Annotations = Some [], Labels = Some [(''alertname'', ''cpu'')], Error = None\<rparr>"

definition exampleResult :: Result where
  "exampleResult =
     \<lparr>Result_State = eval_Alerting, Result_Error = None,
      EvaluatedAt = exampleStart + 360000000000\<rparr>"

definition earlyResult :: Result where
  "earlyResult =
     \<lparr>Result_State = eval_Alerting, Result_Error = None,
      EvaluatedAt = exampleStart + 60000000000\<rparr>"

text \<open>
  Error results carrying a query error: one on the reference \<open>A\<close>, which the example
  rule defines, one on \<open>B\<close>, which it does not.
\<close>

definition queryErrorResult :: Result where
  "queryErrorResult =
     \<lparr>Result_State = eval_Error,
      Result_Error = Some (QueryError ''A'' ''failed to execute query A: timeout''),
      EvaluatedAt = exampleStart + 360000000000\<rparr>"

definition unmatchedErrorResult :: Result where
  "unmatchedErrorResult =
     \<lparr>Result_State = eval_Error,
      Result_Error = Some (QueryError ''B'' ''failed to execute query B: timeout''),
      EvaluatedAt = exampleStart + 360000000000\<rparr>"

text \<open>A history of fifteen evaluations, one a minute.\<close>

definition exampleHistory :: "Evaluation list" where
  "exampleHistory =
     map (\<lambda>i. \<lparr>EvaluationTime = exampleStart + int i * 60000000000,
               EvaluationState = eval_Alerting, EvaluationString = [], Values = None\<rparr>)
       [0 ..< 15]"

text \<open>The same two labels, assigned in one order and in the other.\<close>

definition labelsAB :: Labels where
  "labelsAB = Some (assign ''job'' ''node'' (assign ''alertname'' ''cpu'' []))"

definition labelsBA :: Labels where
  "labelsBA = Some (assign ''alertname'' ''cpu'' (assign ''job'' ''node'' []))"

text \<open>
  The remaining parts of a time read from the clock in the local zone, of a time in UTC
  without monotonic reading, and a state with its three times in a given form.
\<close>

definition localClock :: Time_repr where
  "localClock = \<lparr>monotonic = Some 5000000, location = Some 1\<rparr>"

definition utcWall :: Time_repr where
  "utcWall = \<lparr>monotonic = None, location = None\<rparr>"

definition withTimes :: "State \<Rightarrow> Time_repr \<Rightarrow> State_times" where
  "withTimes a r =
     State.extend a \<lparr>StartsAt_repr = r, EndsAt_repr = r, LastEvaluationTime_repr = r\<rparr>"

section \<open>Properties\<close>

subsection \<open>Words and float64 rounding\<close>

lemma sint_int64_of_int:
  "- (2 ^ 63) \<le> k \<Longrightarrow> k < 2 ^ 63 \<Longrightarrow> sint (word_of_int k :: int64) = k"
  by (simp add: signed_of_int signed_take_bit_int_eq_self)

lemma Seconds_exampleDelay: "int64_of_float64 (Duration_Seconds 30000000000) = 30"
  by code_simp

text \<open>
  Integers below \<open>2^53\<close> in magnitude are float64 numbers: rounding leaves them as
  they are.
\<close>

lemma bitLen_le: "n < 2 ^ m \<Longrightarrow> bitLen n \<le> int m"
proof (induction m arbitrary: n)
  case 0
  then show ?case by (simp add: bitLen.simps)
next
  case (Suc m)
  have "n div 2 < 2 ^ m" using Suc.prems by simp
  then have "bitLen (n div 2) \<le> int m" by (rule Suc.IH)
  then show ?case by (subst bitLen.simps) simp
qed

lemma bitLen_one: "bitLen 1 = 1"
  by (simp add: bitLen.simps)

lemma roundHalfEven_of_int: "roundHalfEven (of_int j) = j"
  by (simp add: roundHalfEven_def)

lemma ilog2_of_int_le:
  assumes "0 < k" and "k < 2 ^ m"
  shows "ilog2 (of_int k) \<le> int m - 1"
proof -
  have "bitLen k \<le> int m" using assms(2) by (rule bitLen_le)
  then show ?thesis
    by (simp add: ilog2_def Let_def bitLen_one)
qed

lemma round_float64_of_nat_exact:
  assumes "0 < k" and "k < 2 ^ 53"
  shows "round_float64 (of_int k) = of_int k"
proof -
  define e where "e = ilog2 (of_int k)"
  have e: "e \<le> 52" using ilog2_of_int_le [OF assms] by (simp add: e_def)
  define n where "n = nat (52 - e)"
  have ulp: "(2::rat) powi (e - 52) = inverse (2 ^ n)"
    using e by (simp add: n_def power_int_def power_one_over inverse_eq_divide)
  have "\<bar>of_int k :: rat\<bar> / 2 powi (e - 52) = of_int (k * 2 ^ n)"
    using assms(1) by (simp add: ulp divide_inverse)
  then have "roundHalfEven (\<bar>of_int k :: rat\<bar> / 2 powi (e - 52)) = k * 2 ^ n"
    by (simp only: roundHalfEven_of_int)
  then show ?thesis
    using assms(1) by (simp add: round_float64_def Let_def e_def [symmetric] ulp)
qed

lemma round_float64_of_int_exact:
  assumes "\<bar>k\<bar> < 2 ^ 53"
  shows "round_float64 (of_int k) = of_int k"
proof -
  consider "k = 0" | "0 < k" | "k < 0" by linarith
  then show ?thesis
  proof cases
    case 1
    then show ?thesis by (simp add: round_float64_def)
  next
    case 2
    with assms show ?thesis by (simp add: round_float64_of_nat_exact)
  next
    case 3
    then have "round_float64 (of_int (- k)) = of_int (- k)"
      using assms by (intro round_float64_of_nat_exact) simp_all
    moreover have "round_float64 (- x) = - round_float64 x" for x
      by (simp add: round_float64_def Let_def)
    ultimately show ?thesis by simp
  qed
qed

text \<open>A whole number of seconds is converted exactly.\<close>

lemma Seconds_whole:
  assumes "sint d = k * 1000000000"
  shows "sint (int64_of_float64 (Duration_Seconds d)) = k"
proof -
  have range: "- (2 ^ 63) \<le> k * 1000000000" "k * 1000000000 < 2 ^ 63"
    using sint_ge [of d] sint_lt [of d] assms by simp_all
  then have k: "\<bar>k\<bar> < 2 ^ 53" by simp
  have sec: "sint d sdiv 1000000000 = k"
    by (simp add: assms signed_divide_int_def sgn_mult abs_mult mult_sgn_abs)
  have nsec: "sint d smod 1000000000 = 0"
    by (simp add: assms signed_modulo_int_def)
  have zero: "round_float64 0 = 0"
    by (simp add: round_float64_def)
  have "Duration_Seconds d = of_int k"
    using k by (simp add: Duration_Seconds_def Let_def sec nsec zero round_float64_of_int_exact)
  then have "int64_of_float64 (Duration_Seconds d) = word_of_int k"
    by (simp add: int64_of_float64_def)
  moreover have "- (2 ^ 63) \<le> k" "k < 2 ^ 63" using k by simp_all
  ultimately show ?thesis by (simp add: sint_int64_of_int)
qed

text \<open>
  Beyond whole seconds the float64 arithmetic shows: for this duration of one nanosecond
  less than 16777217 seconds, \<open>Seconds\<close> is 16777217.
\<close>

lemma Seconds_rounds_up:
  "int64_of_float64 (Duration_Seconds 16777216999999999) = 16777217"
  by code_simp

text \<open>
  \<open>bitLen\<close> is the number of binary digits, and \<open>ilog2\<close> the binary exponent, of a
  positive number.
\<close>

lemma bitLen_pos: "0 < n \<Longrightarrow> 1 \<le> bitLen n"
proof (induction n rule: bitLen.induct)
  case (1 n)
  show ?case
  proof (cases "0 < n div 2")
    case True
    with 1 have "1 \<le> bitLen (n div 2)" by simp
    with 1 show ?thesis by (subst bitLen.simps) simp
  next
    case False
    then have "bitLen (n div 2) = 0" by (subst bitLen.simps) simp
    with 1 show ?thesis by (subst bitLen.simps) simp
  qed
qed

lemma bitLen_bounds:
  "0 < n \<Longrightarrow> 2 ^ nat (bitLen n - 1) \<le> n \<and> n < 2 ^ nat (bitLen n)"
proof (induction n rule: bitLen.induct)
  case (1 n)
  show ?case
  proof (cases "0 < n div 2")
    case False
    with 1(2) have n: "n = 1" by linarith
    show ?thesis by (simp add: n bitLen_one)
  next
    case True
    define b where "b = bitLen (n div 2)"
    have b1: "1 \<le> b" using True by (simp add: b_def bitLen_pos)
    have ih: "2 ^ nat (b - 1) \<le> n div 2" "n div 2 < 2 ^ nat b"
      using 1 True by (simp_all add: b_def)
    have bn: "bitLen n = 1 + b"
      using 1(2) by (subst bitLen.simps) (simp add: b_def)
    have s: "nat b = Suc (nat (b - 1))" using b1 by simp
    have "2 * 2 ^ nat (b - 1) \<le> n" using ih(1) by linarith
    moreover have "n < 2 * 2 ^ nat b" using ih(2) by linarith
    ultimately show ?thesis
      using b1 by (simp add: bn s nat_add_distrib)
  qed
qed

lemma ilog2_bounds:
  assumes "0 < x"
  shows "2 powi (ilog2 x) \<le> x \<and> x < 2 powi (ilog2 x + 1)"
proof -
  obtain p q where pq: "quotient_of x = (p, q)" by (cases "quotient_of x")
  have q: "0 < q" using pq by (rule quotient_of_denom_pos)
  have x: "x = of_int p / of_int q" using pq by (rule quotient_of_div)
  have p: "0 < p" using assms q by (simp add: x zero_less_divide_iff)
  define bp where "bp = bitLen p"
  define bq where "bq = bitLen q"
  have bp1: "1 \<le> bp" and bq1: "1 \<le> bq"
    using p q by (simp_all add: bp_def bq_def bitLen_pos)
  have "2 ^ nat (bp - 1) \<le> p" "p < 2 ^ nat bp" "2 ^ nat (bq - 1) \<le> q" "q < 2 ^ nat bq"
    using bitLen_bounds [OF p] bitLen_bounds [OF q] by (simp_all add: bp_def bq_def)
  then have "(of_int (2 ^ nat (bp - 1)) :: rat) \<le> of_int p" "(of_int p :: rat) < of_int (2 ^ nat bp)"
    "(of_int (2 ^ nat (bq - 1)) :: rat) \<le> of_int q" "(of_int q :: rat) < of_int (2 ^ nat bq)"
    by (simp_all only: of_int_le_iff of_int_less_iff)
  then have P: "(2::rat) powi (bp - 1) \<le> of_int p" "(of_int p :: rat) < 2 powi bp"
    and Q: "(2::rat) powi (bq - 1) \<le> of_int q" "(of_int q :: rat) < 2 powi bq"
    using bp1 bq1 by (simp_all add: power_int_def)
  have qpos: "(0::rat) < of_int q" using q by simp
  have up: "x < 2 powi (bp - bq + 1)"
  proof -
    have "x < 2 powi bp / of_int q"
      unfolding x using P(2) qpos by (simp add: divide_strict_right_mono)
    also have "\<dots> \<le> 2 powi bp / 2 powi (bq - 1)"
      using Q(1) qpos by (intro divide_left_mono) (simp_all add: zero_less_power_int)
    also have "\<dots> = 2 powi (bp - (bq - 1))"
      by (simp add: power_int_diff [symmetric])
    also have "bp - (bq - 1) = bp - bq + 1" by simp
    finally show ?thesis .
  qed
  have low: "2 powi (bp - bq - 1) \<le> x"
  proof -
    have "(2::rat) powi ((bp - 1) - bq) = 2 powi (bp - 1) / 2 powi bq"
      by (rule power_int_diff) simp
    also have "\<dots> \<le> of_int p / 2 powi bq"
      using P(1) by (intro divide_right_mono) simp_all
    also have "\<dots> \<le> of_int p / of_int q"
      using Q(2) p qpos by (intro divide_left_mono) (simp_all add: zero_less_power_int)
    finally have "(2::rat) powi ((bp - 1) - bq) \<le> x" by (simp add: x)
    moreover have "(bp - 1) - bq = bp - bq - 1" by simp
    ultimately show ?thesis by (simp only:)
  qed
  have e: "ilog2 x = (if x < 2 powi (bp - bq) then bp - bq - 1 else bp - bq)"
    by (simp add: ilog2_def pq bp_def bq_def Let_def)
  show ?thesis
  proof (cases "x < 2 powi (bp - bq)")
    case True
    with low show ?thesis by (simp add: e)
  next
    case False
    with up show ?thesis by (simp add: e)
  qed
qed

text \<open>Rounding to an integer moves by at most one half.\<close>

lemma roundHalfEven_range: "\<lfloor>m\<rfloor> \<le> roundHalfEven m \<and> roundHalfEven m \<le> \<lfloor>m\<rfloor> + 1"
  by (simp add: roundHalfEven_def Let_def)

lemma roundHalfEven_error: "\<bar>of_int (roundHalfEven m) - m\<bar> \<le> 1 / 2"
proof -
  have "of_int \<lfloor>m\<rfloor> \<le> m" "m < of_int \<lfloor>m\<rfloor> + 1" by linarith+
  then show ?thesis
    by (auto simp add: roundHalfEven_def Let_def abs_le_iff)
qed

text \<open>
  Rounding a positive number: the significand lies between \<open>2^52\<close> and \<open>2^53\<close>, the
  error is at most half a unit in the last place, and the result stays in the closed
  binade of the number.
\<close>

lemma round_float64_pos:
  assumes "0 < x"
  shows "round_float64 x
     = of_int (roundHalfEven (x / 2 powi (ilog2 x - 52))) * 2 powi (ilog2 x - 52)"
  using assms by (simp add: round_float64_def Let_def)

lemma ulp_pos: "(0::rat) < 2 powi k"
  by (simp add: zero_less_power_int)

lemma powi_split: "(2::rat) powi k = 2 ^ 52 * 2 powi (k - 52)"
proof -
  have "(2::rat) powi (52 + (k - 52)) = 2 powi 52 * 2 powi (k - 52)"
    by (rule power_int_add) simp
  then show ?thesis by simp
qed

lemma mantissa_bounds:
  assumes "0 < x"
  shows "2 ^ 52 \<le> x / 2 powi (ilog2 x - 52) \<and> x / 2 powi (ilog2 x - 52) < 2 ^ 53"
proof -
  define u :: rat where "u = 2 powi (ilog2 x - 52)"
  have u: "0 < u" by (simp add: u_def ulp_pos)
  have lo: "2 ^ 52 * u \<le> x"
    using ilog2_bounds [OF assms] powi_split [of "ilog2 x"] by (simp add: u_def)
  have "(ilog2 x + 1) - 52 = (ilog2 x - 52) + 1" by simp
  then have "(2::rat) powi ((ilog2 x + 1) - 52) = 2 powi (ilog2 x - 52) * 2 powi 1"
    using power_int_add [of "2::rat" "ilog2 x - 52" 1] by simp
  then have "(2::rat) powi (ilog2 x + 1) = 2 ^ 53 * u"
    using powi_split [of "ilog2 x + 1"] by (simp add: u_def)
  then have hi: "x < 2 ^ 53 * u"
    using ilog2_bounds [OF assms] by simp
  from lo hi u show ?thesis
    by (simp add: u_def [symmetric] pos_le_divide_eq pos_divide_less_eq)
qed

lemma round_float64_error:
  assumes "0 < x"
  shows "\<bar>round_float64 x - x\<bar> \<le> 2 powi (ilog2 x - 53)"
proof -
  define u :: rat where "u = 2 powi (ilog2 x - 52)"
  have u: "0 < u" by (simp add: u_def ulp_pos)
  have half: "(2::rat) powi (ilog2 x - 53) = u / 2"
  proof -
    have "(2::rat) powi ((ilog2 x - 52) - 1) = 2 powi (ilog2 x - 52) / 2 powi 1"
      by (rule power_int_diff) simp
    moreover have "(ilog2 x - 52) - 1 = ilog2 x - 53" by simp
    ultimately show ?thesis by (simp add: u_def)
  qed
  have "round_float64 x - x = (of_int (roundHalfEven (x / u)) - x / u) * u"
    using u by (simp add: round_float64_pos [OF assms] u_def [symmetric] left_diff_distrib)
  then have "\<bar>round_float64 x - x\<bar> = \<bar>of_int (roundHalfEven (x / u)) - x / u\<bar> * u"
    using u by (simp add: abs_mult)
  also have "\<dots> \<le> 1 / 2 * u"
    using u roundHalfEven_error [of "x / u"] by (intro mult_right_mono) simp_all
  finally show ?thesis by (simp add: half)
qed

lemma round_float64_bounds:
  assumes "0 < x"
  shows "2 powi (ilog2 x) \<le> round_float64 x \<and> round_float64 x \<le> 2 powi (ilog2 x + 1)"
proof -
  define u :: rat where "u = 2 powi (ilog2 x - 52)"
  define m where "m = x / u"
  have u: "0 < u" by (simp add: u_def ulp_pos)
  have m: "2 ^ 52 \<le> m" "m < 2 ^ 53"
    using mantissa_bounds [OF assms] by (simp_all add: m_def u_def)
  have "(2 ^ 52 :: int) \<le> \<lfloor>m\<rfloor>" using m(1) by (simp add: le_floor_iff)
  moreover have "\<lfloor>m\<rfloor> < (2 ^ 53 :: int)" using m(2) by (simp add: floor_less_iff)
  ultimately have r: "(2 ^ 52 :: int) \<le> roundHalfEven m" "roundHalfEven m \<le> (2 ^ 53 :: int)"
    using roundHalfEven_range [of m] by linarith+
  then have "(of_int (2 ^ 52) :: rat) \<le> of_int (roundHalfEven m)"
    "(of_int (roundHalfEven m) :: rat) \<le> of_int (2 ^ 53)"
    by (simp_all only: of_int_le_iff)
  then have "2 ^ 52 * u \<le> of_int (roundHalfEven m) * u" "of_int (roundHalfEven m) * u \<le> 2 ^ 53 * u"
    using u by (simp_all add: mult_right_mono)
  moreover have "(2::rat) powi (ilog2 x) = 2 ^ 52 * u"
    using powi_split [of "ilog2 x"] by (simp add: u_def)
  moreover have "(2::rat) powi (ilog2 x + 1) = 2 ^ 53 * u"
  proof -
    have "(ilog2 x + 1) - 52 = (ilog2 x - 52) + 1" by simp
    then have "(2::rat) powi ((ilog2 x + 1) - 52) = 2 powi (ilog2 x - 52) * 2 powi 1"
      using power_int_add [of "2::rat" "ilog2 x - 52" 1] by simp
    then show ?thesis using powi_split [of "ilog2 x + 1"] by (simp add: u_def)
  qed
  ultimately show ?thesis
    by (simp add: round_float64_pos [OF assms] u_def [symmetric] m_def [symmetric])
qed

lemma ilog2_less:
  assumes "0 < x" and "x < 2 powi k"
  shows "ilog2 x < k"
proof (rule ccontr)
  assume "\<not> ilog2 x < k"
  then have "k \<le> ilog2 x" by simp
  then have "(2::rat) powi k \<le> 2 powi (ilog2 x)"
    by (intro power_int_increasing) simp_all
  with ilog2_bounds [OF assms(1)] assms(2) show False by linarith
qed

text \<open>Rounding never goes below an integer that the number reaches.\<close>

lemma round_float64_ge_int:
  assumes "0 < x" and "x < 2 ^ 53" and "of_int k \<le> x"
  shows "of_int k \<le> round_float64 x"
proof -
  have "ilog2 x < 53" using assms(1,2) by (intro ilog2_less) simp_all
  then have e: "ilog2 x \<le> 52" by simp
  define n where "n = nat (52 - ilog2 x)"
  have ulp: "(2::rat) powi (ilog2 x - 52) = inverse (2 ^ n)"
    using e by (simp add: n_def power_int_def power_one_over inverse_eq_divide)
  have m: "x / 2 powi (ilog2 x - 52) = x * 2 ^ n"
    by (simp add: ulp divide_inverse)
  have "(of_int (k * 2 ^ n) :: rat) \<le> x * 2 ^ n"
    using assms(3) by simp
  then have "k * 2 ^ n \<le> \<lfloor>x * 2 ^ n\<rfloor>" by (simp only: le_floor_iff)
  then have "k * 2 ^ n \<le> roundHalfEven (x * 2 ^ n)"
    using roundHalfEven_range [of "x * 2 ^ n"] by linarith
  then have "(of_int (k * 2 ^ n) :: rat) \<le> of_int (roundHalfEven (x * 2 ^ n))"
    by (simp only: of_int_le_iff)
  then have "(of_int k :: rat) * 2 ^ n \<le> of_int (roundHalfEven (x * 2 ^ n))" by simp
  then have "(of_int k :: rat) \<le> of_int (roundHalfEven (x * 2 ^ n)) / 2 ^ n"
    by (simp add: pos_le_divide_eq)
  then show ?thesis
    by (simp add: round_float64_pos [OF assms(1)] m) (simp add: ulp divide_inverse)
qed

lemma round_float64_zero: "round_float64 0 = 0"
  by (simp add: round_float64_def)

lemma round_float64_nonneg: "0 \<le> x \<Longrightarrow> 0 \<le> round_float64 x"
proof (cases "x = 0")
  case True
  then show ?thesis by (simp add: round_float64_zero)
next
  case False
  assume "0 \<le> x"
  with False have x: "0 < x" by simp
  have "(0::rat) < 2 powi (ilog2 x)" by (rule ulp_pos)
  with round_float64_bounds [OF x] show ?thesis by linarith
qed

text \<open>The fraction \<open>float64(nsec)/1e9\<close> of a duration that is not negative.\<close>

lemma fraction_bounds:
  assumes "0 \<le> nsec" and "nsec < 1000000000"
  shows "0 \<le> round_float64 (round_float64 (of_int nsec) / 1000000000)"
    and "round_float64 (round_float64 (of_int nsec) / 1000000000)
           \<le> of_int nsec / 1000000000 + 1 / 2 ^ 54"
    and "round_float64 (round_float64 (of_int nsec) / 1000000000) \<le> 1"
proof -
  have ex: "round_float64 (of_int nsec) = of_int nsec"
    using assms by (intro round_float64_of_int_exact) simp
  define y :: rat where "y = of_int nsec / 1000000000"
  have y: "0 \<le> y" "y < 1" using assms by (simp_all add: y_def)
  have "0 \<le> round_float64 y \<and> round_float64 y \<le> y + 1 / 2 ^ 54 \<and> round_float64 y \<le> 1"
  proof (cases "y = 0")
    case True
    then show ?thesis by (simp add: round_float64_zero)
  next
    case False
    with y have pos: "0 < y" by simp
    have "ilog2 y < 0" using pos y(2) by (intro ilog2_less) simp_all
    then have e: "ilog2 y - 53 \<le> - 54" "ilog2 y + 1 \<le> 0" by simp_all
    have "(2::rat) powi (ilog2 y - 53) \<le> 2 powi (- 54)"
      using e(1) by (intro power_int_increasing) simp_all
    also have "(2::rat) powi (- 54) = 1 / 2 ^ 54"
      by (simp add: power_int_def power_one_over)
    finally have "\<bar>round_float64 y - y\<bar> \<le> 1 / 2 ^ 54"
      using round_float64_error [OF pos] by linarith
    moreover have "(2::rat) powi (ilog2 y + 1) \<le> 2 powi 0"
      using e(2) by (intro power_int_increasing) simp_all
    then have "round_float64 y \<le> 1"
      using round_float64_bounds [OF pos] by simp
    ultimately show ?thesis
      using round_float64_nonneg [of y] y(1) by linarith
  qed
  then show "0 \<le> round_float64 (round_float64 (of_int nsec) / 1000000000)"
    and "round_float64 (round_float64 (of_int nsec) / 1000000000)
           \<le> of_int nsec / 1000000000 + 1 / 2 ^ 54"
    and "round_float64 (round_float64 (of_int nsec) / 1000000000) \<le> 1"
    by (simp_all add: ex y_def)
qed

lemma sdiv_smod_nonneg:
  assumes "0 \<le> (k::int)"
  shows "k sdiv 1000000000 = k div 1000000000" and "k smod 1000000000 = k mod 1000000000"
  using assms by (simp_all add: signed_divide_int_def signed_modulo_int_def sgn_if)

text \<open>
  Below \<open>2^24\<close> seconds (194 days) the float64 seconds of a duration truncate to its
  whole seconds. The bound is sharp: see \<open>Seconds_rounds_up\<close>.
\<close>

lemma Seconds_truncates:
  assumes "0 \<le> sint d" and "sint d < 16777216 * 1000000000"
  shows "sint (int64_of_float64 (Duration_Seconds d)) = sint d div 1000000000"
proof -
  define sec where "sec = sint d div 1000000000"
  define nsec where "nsec = sint d mod 1000000000"
  define q where "q = round_float64 (round_float64 (of_int nsec) / 1000000000)"
  define s where "s = of_int sec + q"
  have sec: "0 \<le> sec" "sec < 16777216"
    using assms by (simp_all add: sec_def pos_imp_zdiv_nonneg_iff div_less_iff_less_mult)
  have nsec: "0 \<le> nsec" "nsec < 1000000000"
    by (simp_all add: nsec_def)
  have q: "0 \<le> q" "q \<le> of_int nsec / 1000000000 + 1 / 2 ^ 54"
    using fraction_bounds [OF nsec] by (simp_all add: q_def)
  have "(of_int nsec :: rat) \<le> of_int (999999999 :: int)"
    using nsec(2) by (simp only: of_int_le_iff)
  then have "(of_int nsec :: rat) / 1000000000 \<le> 999999999 / 1000000000"
    by simp
  with q(2) have qhi: "q \<le> 999999999 / 1000000000 + 1 / 2 ^ 54" by linarith
  have exs: "round_float64 (of_int sec) = of_int sec"
    using sec by (intro round_float64_of_int_exact) simp
  have D: "Duration_Seconds d = round_float64 s"
    using assms(1)
    by (simp add: Duration_Seconds_def Let_def sdiv_smod_nonneg exs s_def q_def
        sec_def [symmetric] nsec_def [symmetric])
  have "(of_int sec :: rat) \<le> of_int (16777215 :: int)"
    using sec(2) by (simp only: of_int_le_iff)
  then have shi: "s < 16777216" using qhi by (simp add: s_def)
  have "of_int sec \<le> round_float64 s \<and> round_float64 s < of_int sec + 1"
  proof (cases "s = 0")
    case True
    with q(1) sec(1) have "sec = 0" by (simp add: s_def add_nonneg_eq_0_iff)
    with True show ?thesis by (simp add: round_float64_zero)
  next
    case False
    have "0 \<le> s" using q(1) sec(1) by (simp add: s_def)
    with False have pos: "0 < s" by simp
    have "s < 2 powi 24" using shi by simp
    then have "ilog2 s < 24" using pos by (intro ilog2_less)
    then have "ilog2 s - 53 \<le> - 30" by simp
    then have "(2::rat) powi (ilog2 s - 53) \<le> 2 powi (- 30)"
      by (intro power_int_increasing) simp_all
    also have "(2::rat) powi (- 30) = 1 / 2 ^ 30"
      by (simp add: power_int_def power_one_over)
    finally have "\<bar>round_float64 s - s\<bar> \<le> 1 / 2 ^ 30"
      using round_float64_error [OF pos] by linarith
    then have "round_float64 s \<le> s + 1 / 2 ^ 30"
      by linarith
    with qhi have "round_float64 s < of_int sec + 1" by (simp add: s_def)
    moreover have "of_int sec \<le> round_float64 s"
      using pos shi q(1) by (intro round_float64_ge_int) (simp_all add: s_def)
    ultimately show ?thesis by simp
  qed
  then have fl: "\<lfloor>round_float64 s\<rfloor> = sec" by (simp add: floor_unique)
  have "0 \<le> round_float64 s"
    using q(1) sec(1) by (intro round_float64_nonneg) (simp add: s_def)
  then have "int64_of_float64 (Duration_Seconds d) = word_of_int sec"
    by (simp add: int64_of_float64_def D fl)
  moreover have "- (2 ^ 63) \<le> sec" "sec < 2 ^ 63" using sec by simp_all
  ultimately show ?thesis by (simp add: sint_int64_of_int sec_def)
qed

text \<open>The truncated seconds of a duration that is not negative.\<close>

lemma Seconds_range:
  assumes "0 \<le> sint d"
  shows "0 \<le> sint (int64_of_float64 (Duration_Seconds d))
     \<and> sint (int64_of_float64 (Duration_Seconds d)) \<le> 2 ^ 34"
proof -
  define sec where "sec = sint d div 1000000000"
  define nsec where "nsec = sint d mod 1000000000"
  define q where "q = round_float64 (round_float64 (of_int nsec) / 1000000000)"
  define s where "s = of_int sec + q"
  have "sint d < 2 ^ 63" using sint_lt [of d] by simp
  then have "sint d div 1000000000 \<le> 9223372036854775807 div 1000000000"
    by (intro zdiv_mono1) simp_all
  then have sec: "0 \<le> sec" "sec \<le> 9223372036"
    using assms by (simp_all add: sec_def pos_imp_zdiv_nonneg_iff)
  have nsec: "0 \<le> nsec" "nsec < 1000000000"
    by (simp_all add: nsec_def)
  have q: "0 \<le> q" "q \<le> 1"
    using fraction_bounds [OF nsec] by (simp_all add: q_def)
  have exs: "round_float64 (of_int sec) = of_int sec"
    using sec by (intro round_float64_of_int_exact) simp
  have D: "Duration_Seconds d = round_float64 s"
    using assms
    by (simp add: Duration_Seconds_def Let_def sdiv_smod_nonneg exs s_def q_def
        sec_def [symmetric] nsec_def [symmetric])
  have "(of_int sec :: rat) \<le> of_int (9223372036 :: int)"
    using sec(2) by (simp only: of_int_le_iff)
  then have shi: "s < 2 ^ 34" using q(2) by (simp add: s_def)
  have s0: "0 \<le> s" using q(1) sec(1) by (simp add: s_def)
  have lo: "0 \<le> round_float64 s" using s0 by (rule round_float64_nonneg)
  have hi: "round_float64 s \<le> 2 ^ 34"
  proof (cases "s = 0")
    case True
    then show ?thesis by (simp add: round_float64_zero)
  next
    case False
    with s0 have pos: "0 < s" by simp
    have "s < 2 powi 34" using shi by simp
    then have "ilog2 s < 34" using pos by (intro ilog2_less)
    then have "ilog2 s + 1 \<le> 34" by simp
    then have "(2::rat) powi (ilog2 s + 1) \<le> 2 powi 34"
      by (intro power_int_increasing) simp_all
    with round_float64_bounds [OF pos] show ?thesis by simp
  qed
  have fl: "0 \<le> \<lfloor>round_float64 s\<rfloor>" "\<lfloor>round_float64 s\<rfloor> \<le> 2 ^ 34"
    using lo hi by (simp_all add: floor_le_iff le_floor_iff)
  have "int64_of_float64 (Duration_Seconds d) = word_of_int \<lfloor>round_float64 s\<rfloor>"
    using lo by (simp add: int64_of_float64_def D)
  moreover have "- (2 ^ 63) \<le> \<lfloor>round_float64 s\<rfloor>" "\<lfloor>round_float64 s\<rfloor> < 2 ^ 63"
    using fl by simp_all
  ultimately show ?thesis using fl by (simp add: sint_int64_of_int)
qed

subsection \<open>Time.Sub\<close>



subsection \<open>Alerting results\<close>





subsection \<open>Resend policy\<close>

text \<open>
  C5. \<open>NeedsSending\<close> is false when the state is Pending, and false when it is Normal
  and not Resolved; in every other case it is true exactly when \<open>LastSentAt\<close> plus the
  resend delay is earlier than or equal to \<open>LastEvaluationTime\<close>.
\<close>

theorem NeedsSending_iff:
  "(State a = eval_Pending \<longrightarrow> \<not> NeedsSending a resendDelay)
   \<and> (State a = eval_Normal \<and> \<not> Resolved a \<longrightarrow> \<not> NeedsSending a resendDelay)
   \<and> (\<not> (State a = eval_Pending \<or> State a = eval_Normal \<and> \<not> Resolved a) \<longrightarrow>
        NeedsSending a resendDelay
          = (LastSentAt a + sint resendDelay \<le> LastEvaluationTime a))"
  by (auto simp: NeedsSending_def Time_Add_def Time_Before_def Time_Equal_def Let_def)

text \<open>
  The Pending example needs no sending; once Alerting and never sent it does; sent at
  the last evaluation it does not; Normal and not Resolved it does not.
\<close>

theorem NeedsSending_iff_witness:
  "\<not> NeedsSending exampleState exampleDelay \<and>
   NeedsSending (exampleState\<lparr>State := eval_Alerting\<rparr>) exampleDelay \<and>
   \<not> NeedsSending (exampleState\<lparr>State := eval_Alerting, LastSentAt := exampleStart\<rparr>)
       exampleDelay \<and>
   \<not> NeedsSending (exampleState\<lparr>State := eval_Normal\<rparr>) exampleDelay"
  using NeedsSending_iff [of exampleState exampleDelay]
    NeedsSending_iff [of "exampleState\<lparr>State := eval_Alerting\<rparr>" exampleDelay]
    NeedsSending_iff [of "exampleState\<lparr>State := eval_Alerting, LastSentAt := exampleStart\<rparr>"
      exampleDelay]
    NeedsSending_iff [of "exampleState\<lparr>State := eval_Normal\<rparr>" exampleDelay]
  by (simp add: exampleState_def exampleDelay_def exampleStart_def)

subsection \<open>Normal results\<close>

text \<open>
  C4, as amended. For every state and every Normal result, \<open>Transition\<close> sets the
  state's error to the result's error (so that it is cleared whenever the Normal result
  carries none) and the state to Normal; if the state was not Normal before, \<open>StartsAt\<close>
  and \<open>EndsAt\<close> both become the evaluation timestamp, and if it was, they keep their
  values.
\<close>

theorem Transition_Normal:
  assumes "Result_State result = eval_Normal"
  shows "\<exists>a'. Transition ResendDelay a alertRule result = Returned a' \<and>
     Error a' = Result_Error result \<and>
     State a' = eval_Normal \<and>
     (State a \<noteq> eval_Normal \<longrightarrow>
        StartsAt a' = EvaluatedAt result \<and> EndsAt a' = EvaluatedAt result) \<and>
     (State a = eval_Normal \<longrightarrow> StartsAt a' = StartsAt a \<and> EndsAt a' = EndsAt a)"
  using assms by (simp add: Transition_def resultNormal_def Let_def)

theorem Transition_Normal_witness:
  "(\<exists>a'. Transition exampleDelay (exampleState\<lparr>Error := Some (OrdinaryError ''timeout'')\<rparr>)
            exampleRule (exampleResult\<lparr>Result_State := eval_Normal\<rparr>) = Returned a' \<and>
      Error a' = None \<and> State a' = eval_Normal \<and>
      StartsAt a' = exampleStart + 360000000000 \<and>
      EndsAt a' = exampleStart + 360000000000) \<and>
   (\<exists>a'. Transition exampleDelay (exampleState\<lparr>State := eval_Normal\<rparr>)
            exampleRule (exampleResult\<lparr>Result_State := eval_Normal\<rparr>) = Returned a' \<and>
      Error a' = None \<and> State a' = eval_Normal \<and>
      StartsAt a' = exampleStart \<and> EndsAt a' = exampleStart + 180000000000)"
  using Transition_Normal [of "exampleResult\<lparr>Result_State := eval_Normal\<rparr>" exampleDelay
      "exampleState\<lparr>Error := Some (OrdinaryError ''timeout'')\<rparr>" exampleRule]
    Transition_Normal [of "exampleResult\<lparr>Result_State := eval_Normal\<rparr>" exampleDelay
      "exampleState\<lparr>State := eval_Normal\<rparr>" exampleRule]
  by (auto simp add: exampleState_def exampleResult_def exampleStart_def)

text \<open>
  C4 as stated fails: a Normal result that itself carries an error leaves that error in
  the state, since the assignment copies the result's error field.
\<close>

theorem Transition_Normal_error_counterexample:
  "Transition exampleDelay exampleState exampleRule
     \<lparr>Result_State = eval_Normal, Result_Error = Some (OrdinaryError ''timeout''),
      EvaluatedAt = exampleStart + 360000000000\<rparr>
   = Returned (exampleState
       \<lparr>State := eval_Normal, StartsAt := exampleStart + 360000000000,
        EndsAt := exampleStart + 360000000000,
        Error := Some (OrdinaryError ''timeout'')\<rparr>)"
  by (simp add: Transition_def resultNormal_def Let_def exampleState_def)

subsection \<open>What a transition leaves alone\<close>

text \<open>The label loop changes \<open>Labels\<close> only, the annotation step \<open>Annotations\<close> only.\<close>

lemma setQueryLabels_frame:
  "\<exists>l. state_of (setQueryLabels refID qs a) = a\<lparr>Labels := l\<rparr>"
proof (induction qs)
  case Nil
  have "state_of (setQueryLabels refID [] a) = a\<lparr>Labels := Labels a\<rparr>" by simp
  then show ?case ..
next
  case (Cons q qs)
  show ?case
  proof (cases "RefID q = refID")
    case False
    with Cons show ?thesis by simp
  next
    case True
    show ?thesis
    proof (cases "Labels a")
      case None
      with True have "state_of (setQueryLabels refID (q # qs) a) = a\<lparr>Labels := Labels a\<rparr>"
        by simp
      then show ?thesis ..
    next
      case (Some m)
      with True have "state_of (setQueryLabels refID (q # qs) a)
          = a\<lparr>Labels := Some (assign ''datasource_uid'' (DatasourceUID q)
                                (assign ''ref_id'' (RefID q) m))\<rparr>"
        by simp
      then show ?thesis ..
    qed
  qed
qed

lemma setErrorAnnotation_frame:
  "\<exists>n. state_of (setErrorAnnotation msg a) = a\<lparr>Annotations := n\<rparr>"
proof (cases "Annotations a")
  case None
  then have "state_of (setErrorAnnotation msg a) = a\<lparr>Annotations := Annotations a\<rparr>"
    by (simp add: setErrorAnnotation_def)
  then show ?thesis ..
next
  case (Some m)
  then have "state_of (setErrorAnnotation msg a) = a\<lparr>Annotations := Some (assign ''Error'' msg m)\<rparr>"
    by (simp add: setErrorAnnotation_def)
  then show ?thesis ..
qed



lemma resultError_unfold:
  "resultError ResendDelay a alertRule result =
     (let a3 = setEndsAt ResendDelay
                 (if Time_IsZero (StartsAt a)
                  then a\<lparr>Error := Result_Error result, StartsAt := EvaluatedAt result\<rparr>
                  else a\<lparr>Error := Result_Error result\<rparr>) alertRule result
      in if ExecErrState alertRule = AlertingErrState
         then Returned (a3\<lparr>State := eval_Alerting\<rparr>)
         else if ExecErrState alertRule = ErrorErrState
         then (case errors_As_QueryError (Result_Error result) of
                 None \<Rightarrow> Returned (a3\<lparr>State := eval_Error\<rparr>)
               | Some (refID, msg) \<Rightarrow>
                   (case setQueryLabels refID (Data alertRule) (a3\<lparr>State := eval_Error\<rparr>) of
                      Panicked p a5 \<Rightarrow> Panicked p a5
                    | Returned a5 \<Rightarrow> setErrorAnnotation msg a5))
         else Returned a3)"
  by (simp add: resultError_def setEndsAt_def Let_def)

lemma resultError_frame:
  "\<exists>e st sa ea l n. state_of (resultError ResendDelay a alertRule result)
     = a\<lparr>Error := e, State := st, StartsAt := sa, EndsAt := ea, Labels := l, Annotations := n\<rparr>"
proof -
  define a3 where "a3 = setEndsAt ResendDelay
     (if Time_IsZero (StartsAt a) then a\<lparr>Error := Result_Error result, StartsAt := EvaluatedAt result\<rparr>
      else a\<lparr>Error := Result_Error result\<rparr>) alertRule result"
  note re = resultError_unfold [of ResendDelay a alertRule result, folded a3_def, unfolded Let_def]
  have a3: "a3 = a\<lparr>Error := Error a3, State := State a, StartsAt := StartsAt a3, EndsAt := EndsAt a3,
                   Labels := Labels a, Annotations := Annotations a\<rparr>"
    by (simp add: a3_def setEndsAt_def Let_def)
  have shape: "\<exists>e st' sa ea l' n'.
      a3\<lparr>State := st, Labels := l, Annotations := n\<rparr>
        = a\<lparr>Error := e, State := st', StartsAt := sa, EndsAt := ea, Labels := l', Annotations := n'\<rparr>"
    for st l n
  proof -
    have "a3\<lparr>State := st, Labels := l, Annotations := n\<rparr>
        = a\<lparr>Error := Error a3, State := st, StartsAt := StartsAt a3, EndsAt := EndsAt a3,
             Labels := l, Annotations := n\<rparr>"
      by (subst a3) simp
    then show ?thesis by blast
  qed
  have "\<exists>st l n. state_of (resultError ResendDelay a alertRule result)
          = a3\<lparr>State := st, Labels := l, Annotations := n\<rparr>"
  proof (cases "ExecErrState alertRule")
    case AlertingErrState
    then have "state_of (resultError ResendDelay a alertRule result)
          = a3\<lparr>State := eval_Alerting, Labels := Labels a3, Annotations := Annotations a3\<rparr>"
      by (simp add: re)
    then show ?thesis by blast
  next
    case OtherErrState
    then have "state_of (resultError ResendDelay a alertRule result)
          = a3\<lparr>State := State a3, Labels := Labels a3, Annotations := Annotations a3\<rparr>"
      by (simp add: re)
    then show ?thesis by blast
  next
    case ErrorErrState
    show ?thesis
    proof (cases "errors_As_QueryError (Result_Error result)")
      case None
      with ErrorErrState have "state_of (resultError ResendDelay a alertRule result)
          = a3\<lparr>State := eval_Error, Labels := Labels a3, Annotations := Annotations a3\<rparr>"
        by (simp add: re)
      then show ?thesis by blast
    next
      case (Some rm)
      obtain refID msg where rm: "rm = (refID, msg)" by (cases rm)
      obtain l where l: "state_of (setQueryLabels refID (Data alertRule) (a3\<lparr>State := eval_Error\<rparr>))
           = a3\<lparr>State := eval_Error, Labels := l\<rparr>"
        using setQueryLabels_frame by blast
      show ?thesis
      proof (cases "setQueryLabels refID (Data alertRule) (a3\<lparr>State := eval_Error\<rparr>)")
        case (Panicked p a5)
        with l have "a5 = a3\<lparr>State := eval_Error, Labels := l\<rparr>" by simp
        with Panicked Some rm ErrorErrState
        have "state_of (resultError ResendDelay a alertRule result)
          = a3\<lparr>State := eval_Error, Labels := l, Annotations := Annotations a3\<rparr>"
          by (simp add: re)
        then show ?thesis by blast
      next
        case (Returned a5)
        with l have a5: "a5 = a3\<lparr>State := eval_Error, Labels := l\<rparr>" by simp
        obtain n where n: "state_of (setErrorAnnotation msg a5) = a5\<lparr>Annotations := n\<rparr>"
          using setErrorAnnotation_frame by blast
        from Returned Some rm ErrorErrState
        have "state_of (resultError ResendDelay a alertRule result) = state_of (setErrorAnnotation msg a5)"
          by (simp add: re)
        with n a5 have "state_of (resultError ResendDelay a alertRule result)
          = a3\<lparr>State := eval_Error, Labels := l, Annotations := n\<rparr>"
          by simp
        then show ?thesis by blast
      qed
    qed
  qed
  then obtain st l n where "state_of (resultError ResendDelay a alertRule result)
          = a3\<lparr>State := st, Labels := l, Annotations := n\<rparr>" by blast
  then show ?thesis using shape by simp
qed

text \<open>
  C10. For every state, rule and result of any of the four outcomes, \<open>Transition\<close>
  leaves \<open>AlertRuleUID\<close>, \<open>OrgID\<close>, \<open>CacheId\<close>, \<open>LastSentAt\<close>, \<open>Resolved\<close>,
  \<open>Results\<close>, \<open>LastEvaluationTime\<close> and \<open>EvaluationDuration\<close> as they are; this holds
  for the state it returns as well as for the state it leaves when it panics.
\<close>

theorem Transition_frame:
  assumes "Result_State result \<in> {eval_Normal, eval_Alerting, eval_Error, eval_NoData}"
  shows "AlertRuleUID (state_of (Transition ResendDelay a alertRule result)) = AlertRuleUID a \<and>
     OrgID (state_of (Transition ResendDelay a alertRule result)) = OrgID a \<and>
     CacheId (state_of (Transition ResendDelay a alertRule result)) = CacheId a \<and>
     LastSentAt (state_of (Transition ResendDelay a alertRule result)) = LastSentAt a \<and>
     Resolved (state_of (Transition ResendDelay a alertRule result)) = Resolved a \<and>
     Results (state_of (Transition ResendDelay a alertRule result)) = Results a \<and>
     LastEvaluationTime (state_of (Transition ResendDelay a alertRule result))
       = LastEvaluationTime a \<and>
     EvaluationDuration (state_of (Transition ResendDelay a alertRule result))
       = EvaluationDuration a"
proof (cases "Result_State result")
  case eval_Normal
  then show ?thesis by (simp add: Transition_def resultNormal_def Let_def)
next
  case eval_Alerting
  then show ?thesis
    by (cases "State a") (simp_all add: Transition_def resultAlerting_def setEndsAt_def Let_def)
next
  case eval_Pending
  with assms show ?thesis by simp
next
  case eval_NoData
  then show ?thesis
    by (cases "NoDataState alertRule")
      (simp_all add: Transition_def resultNoData_def setEndsAt_def Let_def)
next
  case eval_Error
  obtain e st sa ea l n where "state_of (resultError ResendDelay a alertRule result)
     = a\<lparr>Error := e, State := st, StartsAt := sa, EndsAt := ea, Labels := l, Annotations := n\<rparr>"
    using resultError_frame by blast
  with eval_Error show ?thesis by (simp add: Transition_def)
qed

theorem Transition_frame_witness:
  "Results (state_of (Transition exampleDelay exampleState exampleRule exampleResult)) = [] \<and>
   LastSentAt (state_of (Transition exampleDelay exampleState exampleRule
     (exampleResult\<lparr>Result_State := eval_Error\<rparr>))) = 0 \<and>
   Resolved (state_of (Transition exampleDelay exampleState exampleRule
     (exampleResult\<lparr>Result_State := eval_Normal\<rparr>))) = False \<and>
   AlertRuleUID (state_of (Transition exampleDelay exampleState exampleRule
     (exampleResult\<lparr>Result_State := eval_NoData\<rparr>))) = ''rule-1''"
  using Transition_frame [of exampleResult exampleDelay exampleState exampleRule]
    Transition_frame [of "exampleResult\<lparr>Result_State := eval_Error\<rparr>" exampleDelay
      exampleState exampleRule]
    Transition_frame [of "exampleResult\<lparr>Result_State := eval_Normal\<rparr>" exampleDelay
      exampleState exampleRule]
    Transition_frame [of "exampleResult\<lparr>Result_State := eval_NoData\<rparr>" exampleDelay
      exampleState exampleRule]
  by (simp add: exampleResult_def exampleState_def)

subsection \<open>Error results\<close>

text \<open>Assignment to a map entry, and what the label loop does.\<close>

lemma map_of_assign: "map_of (assign k v xs) = (map_of xs)(k \<mapsto> v)"
  by (induction xs) auto

lemma entries_assign: "entries (Some (assign k v xs)) = (entries (Some xs))(k \<mapsto> v)"
  by (simp add: entries_def map_of_assign)

lemma setQueryLabels_found:
  assumes "find (\<lambda>q. RefID q = refID) qs = Some q" and "Labels a = Some m"
  shows "setQueryLabels refID qs a =
     Returned (a\<lparr>Labels := Some (assign ''datasource_uid'' (DatasourceUID q)
                                 (assign ''ref_id'' refID m))\<rparr>)"
  using assms by (induction qs) (auto split: if_splits)

lemma setQueryLabels_found_nil:
  assumes "find (\<lambda>q. RefID q = refID) qs = Some q" and "Labels a = None"
  shows "setQueryLabels refID qs a = Panicked NilMapAssignment a"
  using assms by (induction qs) (auto split: if_splits)

lemma setQueryLabels_not_found:
  assumes "\<forall>q\<in>set qs. RefID q \<noteq> refID"
  shows "setQueryLabels refID qs a = Returned a"
  using assms by (induction qs) auto

text \<open>
  C7, as amended. For a state whose \<open>Labels\<close> and \<open>Annotations\<close> maps are not nil, a
  rule with \<open>ExecErrState = Error\<close> and an Error result carrying a query error whose
  reference is the \<open>RefID\<close> of a definition of the rule (\<open>q\<close> is the first such
  definition), \<open>Transition\<close> returns with the state Error, \<open>Labels["ref_id"]\<close> the
  reference, \<open>Labels["datasource_uid"]\<close> the data source of \<open>q\<close>, and
  \<open>Annotations["Error"]\<close> the message of the error.
\<close>

theorem Transition_QueryError_found:
  assumes "Result_State result = eval_Error"
    and "ExecErrState alertRule = ErrorErrState"
    and "errors_As_QueryError (Result_Error result) = Some (refID, msg)"
    and "find (\<lambda>q. RefID q = refID) (Data alertRule) = Some q"
    and "Labels a = Some m" and "Annotations a = Some n"
  shows "\<exists>a'. Transition ResendDelay a alertRule result = Returned a' \<and>
     State a' = eval_Error \<and>
     entries (Labels a') ''ref_id'' = Some refID \<and>
     entries (Labels a') ''datasource_uid'' = Some (DatasourceUID q) \<and>
     entries (Annotations a') ''Error'' = Some msg"
  using assms
  by (simp add: Transition_def resultError_unfold Let_def setEndsAt_def
      setQueryLabels_found setErrorAnnotation_def entries_assign)

theorem Transition_QueryError_found_witness:
  "\<exists>a'. Transition exampleDelay exampleState exampleRule queryErrorResult = Returned a' \<and>
     State a' = eval_Error \<and>
     entries (Labels a') ''ref_id'' = Some ''A'' \<and>
     entries (Labels a') ''datasource_uid'' = Some ''ds1'' \<and>
     entries (Annotations a') ''Error'' = Some ''failed to execute query A: timeout''"
  using Transition_QueryError_found [of queryErrorResult exampleRule "''A''"
      "''failed to execute query A: timeout''" "\<lparr>RefID = ''A'', DatasourceUID = ''ds1''\<rparr>"
      exampleState "[(''alertname'', ''cpu'')]" "[]" exampleDelay]
  by (simp add: queryErrorResult_def exampleRule_def exampleState_def errors_As_QueryError_def)

text \<open>
  C7 as stated fails on a state whose \<open>Labels\<close> map is nil: the assignment to
  \<open>Labels["ref_id"]\<close> panics, and no label or annotation is set.
\<close>

theorem Transition_QueryError_nil_Labels_counterexample:
  "Transition exampleDelay (exampleState\<lparr>Labels := None\<rparr>) exampleRule queryErrorResult
   = Panicked NilMapAssignment
       (exampleState\<lparr>Labels := None, State := eval_Error,
          EndsAt := exampleStart + 540000000000,
          Error := Some (QueryError ''A'' ''failed to execute query A: timeout'')\<rparr>)"
  by (simp add: Transition_def resultError_unfold Let_def setEndsAt_def queryErrorResult_def
      exampleRule_def exampleState_def exampleDelay_def exampleStart_def errors_As_QueryError_def
      Seconds_exampleDelay Time_IsZero_def Time_Add_def time_Second_def)

text \<open>
  C8, as amended. When the reference of the query error is the \<open>RefID\<close> of none of the
  rule's definitions (\<open>ExecErrState = Error\<close>, annotations map not nil), \<open>Transition\<close>
  leaves \<open>Labels\<close> as it is, and still sets \<open>Annotations["Error"]\<close> to the message of
  the error; the other annotations keep their values.
\<close>

theorem Transition_QueryError_not_found:
  assumes "Result_State result = eval_Error"
    and "ExecErrState alertRule = ErrorErrState"
    and "errors_As_QueryError (Result_Error result) = Some (refID, msg)"
    and "\<forall>q\<in>set (Data alertRule). RefID q \<noteq> refID"
    and "Annotations a = Some n"
  shows "\<exists>a'. Transition ResendDelay a alertRule result = Returned a' \<and>
     Labels a' = Labels a \<and>
     entries (Annotations a') = (entries (Annotations a))(''Error'' \<mapsto> msg)"
  using assms
  by (simp add: Transition_def resultError_unfold Let_def setEndsAt_def
      setQueryLabels_not_found setErrorAnnotation_def entries_assign)

theorem Transition_QueryError_not_found_witness:
  "\<exists>a'. Transition exampleDelay exampleState exampleRule unmatchedErrorResult = Returned a' \<and>
     Labels a' = Some [(''alertname'', ''cpu'')] \<and>
     entries (Annotations a') = [''Error'' \<mapsto> ''failed to execute query B: timeout'']"
  using Transition_QueryError_not_found [of unmatchedErrorResult exampleRule "''B''"
      "''failed to execute query B: timeout''" exampleState "[]" exampleDelay]
  by (simp add: unmatchedErrorResult_def exampleRule_def exampleState_def
      errors_As_QueryError_def entries_def)

text \<open>
  C8 as stated fails: the annotations do change. The assignment to
  \<open>Annotations["Error"]\<close> comes after the loop and does not depend on a match.
\<close>

theorem Transition_QueryError_not_found_counterexample:
  "Annotations exampleState = Some [] \<and>
   Annotations (state_of (Transition exampleDelay exampleState exampleRule unmatchedErrorResult))
     = Some [(''Error'', ''failed to execute query B: timeout'')]"
  by (simp add: Transition_def resultError_unfold Let_def setEndsAt_def unmatchedErrorResult_def
      exampleRule_def exampleState_def errors_As_QueryError_def setErrorAnnotation_def)

subsection \<open>The auto-resolve window\<close>

lemma sint_mult_in_range:
  assumes "- (2 ^ 63) \<le> sint a * sint b" and "sint a * sint b < 2 ^ 63"
  shows "sint (a * b :: int64) = sint a * sint b"
  using assms by (simp add: sint_word_mult signed_take_bit_int_eq_self)

text \<open>What \<open>setEndsAt\<close> stores does not depend on the state.\<close>

lemma EndsAt_setEndsAt:
  "EndsAt (setEndsAt ResendDelay a alertRule result) =
     EvaluatedAt result +
     sint ((if sint (int64_of_float64 (Duration_Seconds ResendDelay))
               < sint (IntervalSeconds alertRule)
            then time_Second * IntervalSeconds alertRule else ResendDelay) * 3)"
  by (simp add: setEndsAt_def Let_def Time_Add_def)

text \<open>
  The comparison of \<open>IntervalSeconds\<close> with the truncated seconds of the resend delay
  picks the larger of the two durations when these seconds are the whole seconds of the
  delay; nothing wraps around when three times that maximum fits a Duration.
\<close>

lemma setEndsAt_max:
  assumes T: "sint (int64_of_float64 (Duration_Seconds ResendDelay))
                = sint ResendDelay div 1000000000"
    and lo: "- (2 ^ 63)
              \<le> 3 * max (sint ResendDelay) (sint (IntervalSeconds alertRule) * 1000000000)"
    and hi: "3 * max (sint ResendDelay) (sint (IntervalSeconds alertRule) * 1000000000)
              < 2 ^ 63"
  shows "EndsAt (setEndsAt ResendDelay a alertRule result) =
     EvaluatedAt result
     + 3 * max (sint ResendDelay) (sint (IntervalSeconds alertRule) * 1000000000)"
proof -
  define r where "r = sint ResendDelay"
  define i where "i = sint (IntervalSeconds alertRule)"
  have r: "- (2 ^ 63) \<le> r" "r < 2 ^ 63"
    using sint_ge [of ResendDelay] sint_lt [of ResendDelay] by (simp_all add: r_def)
  note lo' = lo [folded r_def i_def] and hi' = hi [folded r_def i_def]
  show ?thesis
  proof (cases "r div 1000000000 < i")
    case True
    then have "r div 1000000000 + 1 \<le> i" by simp
    then have "(r div 1000000000 + 1) * 1000000000 \<le> i * 1000000000" by simp
    moreover have "r < (r div 1000000000 + 1) * 1000000000"
    proof -
      have "r mod 1000000000 < 1000000000" by simp
      with div_mult_mod_eq [of r 1000000000] show ?thesis
        unfolding distrib_right by linarith
    qed
    ultimately have gt: "r < i * 1000000000" by linarith
    then have m: "max r (i * 1000000000) = i * 1000000000" by simp
    have range: "- (2 ^ 63) \<le> i * 1000000000" "i * 1000000000 < 2 ^ 63"
      using gt r lo' hi' m by linarith+
    have "sint (time_Second * IntervalSeconds alertRule) = i * 1000000000"
      using range sint_mult_in_range [of time_Second "IntervalSeconds alertRule"]
      by (simp add: time_Second_def i_def mult.commute)
    moreover from this have "sint (time_Second * IntervalSeconds alertRule * 3)
        = 3 * (i * 1000000000)"
      using lo' hi' m sint_mult_in_range [of "time_Second * IntervalSeconds alertRule" 3]
      by (simp add: mult.commute)
    ultimately show ?thesis
      using True T m by (simp add: EndsAt_setEndsAt r_def [symmetric] i_def [symmetric])
  next
    case False
    then have "i \<le> r div 1000000000" by simp
    then have "i * 1000000000 \<le> r div 1000000000 * 1000000000" by simp
    moreover have "r div 1000000000 * 1000000000 \<le> r"
    proof -
      have "0 \<le> r mod 1000000000" by simp
      with div_mult_mod_eq [of r 1000000000] show ?thesis by linarith
    qed
    ultimately have m: "max r (i * 1000000000) = r" by simp
    have "sint (ResendDelay * 3) = 3 * r"
      using lo' hi' m sint_mult_in_range [of ResendDelay 3]
      by (simp add: r_def mult.commute)
    then show ?thesis
      using False T m by (simp add: EndsAt_setEndsAt r_def [symmetric] i_def [symmetric])
  qed
qed

lemma EndsAt_setQueryLabels:
  "EndsAt (state_of (setQueryLabels refID qs a)) = EndsAt a"
proof -
  obtain l where "state_of (setQueryLabels refID qs a) = a\<lparr>Labels := l\<rparr>"
    using setQueryLabels_frame by blast
  then show ?thesis by simp
qed

lemma EndsAt_setErrorAnnotation:
  "EndsAt (state_of (setErrorAnnotation msg a)) = EndsAt a"
proof -
  obtain n where "state_of (setErrorAnnotation msg a) = a\<lparr>Annotations := n\<rparr>"
    using setErrorAnnotation_frame by blast
  then show ?thesis by simp
qed

lemma EndsAt_resultError:
  "EndsAt (state_of (resultError ResendDelay a alertRule result))
     = EndsAt (setEndsAt ResendDelay a alertRule result)"
proof -
  define a3 where "a3 = setEndsAt ResendDelay
     (if Time_IsZero (StartsAt a) then a\<lparr>Error := Result_Error result, StartsAt := EvaluatedAt result\<rparr>
      else a\<lparr>Error := Result_Error result\<rparr>) alertRule result"
  note re = resultError_unfold [of ResendDelay a alertRule result, folded a3_def, unfolded Let_def]
  have a3: "EndsAt a3 = EndsAt (setEndsAt ResendDelay a alertRule result)"
    by (simp add: a3_def EndsAt_setEndsAt)
  have "EndsAt (state_of (resultError ResendDelay a alertRule result)) = EndsAt a3"
  proof (cases "ExecErrState alertRule")
    case AlertingErrState
    then show ?thesis by (simp add: re)
  next
    case OtherErrState
    then show ?thesis by (simp add: re)
  next
    case ErrorErrState
    show ?thesis
    proof (cases "errors_As_QueryError (Result_Error result)")
      case None
      with ErrorErrState show ?thesis by (simp add: re)
    next
      case (Some rm)
      obtain refID msg where rm: "rm = (refID, msg)" by (cases rm)
      have l: "EndsAt (state_of (setQueryLabels refID (Data alertRule) (a3\<lparr>State := eval_Error\<rparr>)))
           = EndsAt a3"
        by (simp add: EndsAt_setQueryLabels)
      show ?thesis
      proof (cases "setQueryLabels refID (Data alertRule) (a3\<lparr>State := eval_Error\<rparr>)")
        case (Panicked p a5)
        with l Some rm ErrorErrState show ?thesis by (simp add: re)
      next
        case (Returned a5)
        with l Some rm ErrorErrState show ?thesis
          by (simp add: re EndsAt_setErrorAnnotation)
      qed
    qed
  qed
  with a3 show ?thesis by simp
qed

lemma Transition_refreshes_EndsAt:
  assumes "Result_State result \<in> {eval_Alerting, eval_Error, eval_NoData}"
    and "\<not> (Result_State result = eval_Alerting \<and> State a = eval_Pending \<and>
            \<not> sint (For alertRule) < sint (Time_Sub (EvaluatedAt result) (StartsAt a)))"
  shows "EndsAt (state_of (Transition ResendDelay a alertRule result))
     = EndsAt (setEndsAt ResendDelay a alertRule result)"
proof (cases "Result_State result")
  case eval_Normal
  with assms(1) show ?thesis by simp
next
  case eval_Pending
  with assms(1) show ?thesis by simp
next
  case eval_Alerting
  with assms(2) show ?thesis
    by (cases "State a")
      (simp_all add: Transition_def resultAlerting_def Let_def EndsAt_setEndsAt)
next
  case eval_NoData
  then show ?thesis
    by (cases "NoDataState alertRule")
      (simp_all add: Transition_def resultNoData_def Let_def EndsAt_setEndsAt)
next
  case eval_Error
  then show ?thesis by (simp add: Transition_def EndsAt_resultError)
qed

text \<open>
  C3, as amended. After a \<open>Transition\<close> on an Error or NoData result, and on an
  Alerting result unless the state is Pending and the elapsed time does not exceed
  \<open>For\<close>, \<open>EndsAt\<close> is the evaluation timestamp plus three times the maximum of the
  resend delay and of \<open>IntervalSeconds\<close> seconds. This is for a resend delay whose
  seconds, taken through float64 and truncated, are its whole seconds (as for every
  whole number of seconds, \<open>Seconds_whole\<close>, and for every delay from zero to \<open>2^24\<close>
  seconds, \<open>Seconds_truncates\<close>), and for a maximum whose triple fits a Duration.
  Every branch that refreshes \<open>EndsAt\<close> does it through \<open>setEndsAt\<close>.
\<close>

theorem Transition_EndsAt:
  assumes "Result_State result \<in> {eval_Alerting, eval_Error, eval_NoData}"
    and "\<not> (Result_State result = eval_Alerting \<and> State a = eval_Pending \<and>
            \<not> sint (For alertRule) < sint (Time_Sub (EvaluatedAt result) (StartsAt a)))"
    and "sint (int64_of_float64 (Duration_Seconds ResendDelay))
           = sint ResendDelay div 1000000000"
    and "- (2 ^ 63)
           \<le> 3 * max (sint ResendDelay) (sint (IntervalSeconds alertRule) * 1000000000)"
    and "3 * max (sint ResendDelay) (sint (IntervalSeconds alertRule) * 1000000000) < 2 ^ 63"
  shows "EndsAt (state_of (Transition ResendDelay a alertRule result)) =
     EvaluatedAt result
     + 3 * max (sint ResendDelay) (sint (IntervalSeconds alertRule) * 1000000000)"
proof -
  have "EndsAt (state_of (Transition ResendDelay a alertRule result))
      = EndsAt (setEndsAt ResendDelay a alertRule result)"
    using assms(1,2) by (rule Transition_refreshes_EndsAt)
  also have "\<dots> = EvaluatedAt result
     + 3 * max (sint ResendDelay) (sint (IntervalSeconds alertRule) * 1000000000)"
    using assms(3,4,5) by (rule setEndsAt_max)
  finally show ?thesis .
qed

theorem Transition_EndsAt_witness:
  "EndsAt (state_of (Transition exampleDelay exampleState exampleRule exampleResult))
     = exampleStart + 540000000000 \<and>
   EndsAt (state_of (Transition exampleDelay exampleState exampleRule queryErrorResult))
     = exampleStart + 540000000000 \<and>
   EndsAt (state_of (Transition exampleDelay exampleState (exampleRule\<lparr>IntervalSeconds := 10\<rparr>)
     (exampleResult\<lparr>Result_State := eval_NoData\<rparr>)))
     = exampleStart + 450000000000"
  using Transition_EndsAt [of exampleResult exampleState exampleRule exampleDelay]
    Transition_EndsAt [of queryErrorResult exampleState exampleRule exampleDelay]
    Transition_EndsAt [of "exampleResult\<lparr>Result_State := eval_NoData\<rparr>" exampleState
      "exampleRule\<lparr>IntervalSeconds := 10\<rparr>" exampleDelay]
  by (simp add: exampleResult_def queryErrorResult_def exampleState_def exampleRule_def
      exampleDelay_def exampleStart_def Seconds_exampleDelay Time_Sub_def Let_def)

text \<open>
  C3 as stated fails: an Alerting result on a Pending state that is not yet promoted
  leaves \<open>EndsAt\<close> at its value, 180 seconds after the start, while the formula gives
  240 seconds after the start.
\<close>

theorem Transition_EndsAt_Pending_counterexample:
  "EndsAt (state_of (Transition exampleDelay exampleState exampleRule earlyResult))
     = exampleStart + 180000000000 \<and>
   EvaluatedAt earlyResult
     + 3 * max (sint exampleDelay) (sint (IntervalSeconds exampleRule) * 1000000000)
     = exampleStart + 240000000000"
  by (simp add: Transition_def resultAlerting_def Let_def earlyResult_def exampleState_def
      exampleRule_def exampleDelay_def exampleStart_def Time_Sub_def)

text \<open>
  Without the bound the products wrap around: for \<open>IntervalSeconds = 2^62\<close> the
  duration added is zero.
\<close>

lemma setEndsAt_wraps:
  "EndsAt (setEndsAt exampleDelay exampleState
             (exampleRule\<lparr>IntervalSeconds := 4611686018427387904\<rparr>) exampleResult)
     = EvaluatedAt exampleResult"
  by (simp add: EndsAt_setEndsAt exampleDelay_def exampleRule_def Seconds_exampleDelay
      time_Second_def)

subsection \<open>The history window\<close>

lemma Seconds_zero: "int64_of_float64 (Duration_Seconds 0) = 0"
  by (simp add: Duration_Seconds_def round_float64_def int64_of_float64_def)

lemma Seconds_five_minutes: "int64_of_float64 (Duration_Seconds 300000000000) = 300"
  by code_simp

lemma numBuckets_five_minutes:
  "For alertRule = 300000000000 \<Longrightarrow> IntervalSeconds alertRule = 60 \<Longrightarrow>
     numBuckets alertRule = 10"
  by (simp add: numBuckets_def Seconds_five_minutes)

lemma numBuckets_For_zero: "For alertRule = 0 \<Longrightarrow> numBuckets alertRule = 10"
  by (simp add: numBuckets_def Seconds_zero)

text \<open>
  For a rule with \<open>For\<close> not negative and a positive \<open>IntervalSeconds\<close> the capacity
  is positive.
\<close>

lemma numBuckets_positive:
  assumes "0 \<le> sint (For alertRule)" and "0 < sint (IntervalSeconds alertRule)"
  shows "0 < sint (numBuckets alertRule)"
proof -
  define secs where "secs = sint (int64_of_float64 (Duration_Seconds (For alertRule)))"
  define i where "i = sint (IntervalSeconds alertRule)"
  define k where "k = secs div i"
  have secs: "0 \<le> secs" "secs \<le> 2 ^ 34"
    using Seconds_range [OF assms(1)] by (simp_all add: secs_def)
  have i: "0 < i" using assms(2) by (simp add: i_def)
  have sd: "secs sdiv i = k"
    using secs(1) i by (simp add: signed_divide_int_def sgn_if k_def)
  have "k \<le> secs"
  proof (cases "secs = 0")
    case True
    then show ?thesis by (simp add: k_def)
  next
    case False
    with secs(1) have "0 < secs" by simp
    then show ?thesis unfolding k_def by (rule int_div_le_self)
  qed
  then have k: "0 \<le> k" "k \<le> 2 ^ 34"
    using secs i by (simp_all add: k_def pos_imp_zdiv_nonneg_iff)
  have "sint (word_of_int (2 * k) :: int64) = 2 * k"
    using k by (intro sint_int64_of_int) simp_all
  then have n: "sint (2 * (word_of_int k :: int64)) = 2 * k" by simp
  show ?thesis
  proof (cases "2 * (word_of_int k :: int64) = 0")
    case True
    then show ?thesis
      by (simp add: numBuckets_def Let_def secs_def [symmetric] i_def [symmetric] sd)
  next
    case False
    with n have "2 * k \<noteq> 0" by auto
    with k(1) have "0 < 2 * k" by simp
    with False n show ?thesis
      by (simp add: numBuckets_def Let_def secs_def [symmetric] i_def [symmetric] sd)
  qed
qed

text \<open>The division is the integer one: ninety seconds at one a minute give a capacity of 2.\<close>

lemma numBuckets_truncates:
  "numBuckets (exampleRule\<lparr>For := 90000000000\<rparr>) = 2"
proof -
  have "int64_of_float64 (Duration_Seconds 90000000000) = 90" by code_simp
  then show ?thesis by (simp add: numBuckets_def exampleRule_def)
qed

lemma sdiv_nonneg_bounds:
  assumes "0 \<le> (a::int)"
  shows "- a \<le> a sdiv i \<and> a sdiv i \<le> a"
proof -
  have d: "0 \<le> a div \<bar>i\<bar>" using assms by (simp add: pos_imp_zdiv_nonneg_iff div_int_pos_iff)
  have "a div \<bar>i\<bar> \<le> a"
  proof (cases "a = 0")
    case True
    then show ?thesis by simp
  next
    case False
    with assms have "0 < a" by simp
    then show ?thesis by (rule int_div_le_self)
  qed
  with d assms show ?thesis
    by (auto simp add: signed_divide_int_def sgn_if)
qed

text \<open>
  The capacity in integer arithmetic, with nothing wrapping around, for every \<open>For\<close>
  that is not negative.
\<close>

lemma sint_numBuckets:
  assumes "0 \<le> sint (For alertRule)"
  shows "sint (numBuckets alertRule) =
     (let c = 2 * (sint (int64_of_float64 (Duration_Seconds (For alertRule)))
                   sdiv sint (IntervalSeconds alertRule))
      in if c = 0 then 10 else c)"
proof -
  define secs where "secs = sint (int64_of_float64 (Duration_Seconds (For alertRule)))"
  define k where "k = secs sdiv sint (IntervalSeconds alertRule)"
  have secs: "0 \<le> secs" "secs \<le> 2 ^ 34"
    using Seconds_range [OF assms] by (simp_all add: secs_def)
  have k: "- (2 ^ 34) \<le> k" "k \<le> 2 ^ 34"
    using sdiv_nonneg_bounds [OF secs(1), of "sint (IntervalSeconds alertRule)"] secs(2)
    by (simp_all add: k_def)
  have "sint (word_of_int (2 * k) :: int64) = 2 * k"
    using k by (intro sint_int64_of_int) simp_all
  then have n: "sint (2 * (word_of_int k :: int64)) = 2 * k" by simp
  have z: "2 * (word_of_int k :: int64) = 0 \<longleftrightarrow> k = 0"
  proof
    assume "2 * (word_of_int k :: int64) = 0"
    with n show "k = 0" by simp
  next
    assume "k = 0"
    then show "2 * (word_of_int k :: int64) = 0" by simp
  qed
  show ?thesis
    using n z
    by (simp add: numBuckets_def Let_def secs_def [symmetric] k_def [symmetric])
qed

text \<open>
  Below \<open>2^24\<close> seconds the capacity is twice the quotient of the whole seconds of
  \<open>For\<close> by \<open>IntervalSeconds\<close>, and 10 where that is zero.
\<close>

lemma numBuckets_closed_form:
  assumes "0 \<le> sint (For alertRule)" and "sint (For alertRule) < 16777216 * 1000000000"
  shows "sint (numBuckets alertRule) =
     (let c = 2 * ((sint (For alertRule) div 1000000000) sdiv sint (IntervalSeconds alertRule))
      in if c = 0 then 10 else c)"
  using sint_numBuckets [OF assms(1)] Seconds_truncates [OF assms] by simp

text \<open>
  C6, as amended. For every state and every rule with \<open>IntervalSeconds\<close> not zero
  and a capacity that is not negative, \<open>TrimResults\<close> returns, changing nothing but
  the history. The capacity is \<open>numBuckets\<close>: twice the quotient (integer division,
  truncating) of \<open>int64(For.Seconds())\<close> by \<open>IntervalSeconds\<close>, and 10 when that is
  zero; for \<open>For\<close> from zero to \<open>2^24\<close> seconds \<open>int64(For.Seconds())\<close> is the number of
  whole seconds of \<open>For\<close>. A history shorter than the capacity is unchanged; otherwise
  the history becomes its last capacity entries, in their order. The capacity is 10
  for \<open>For\<close> of five minutes with \<open>IntervalSeconds = 60\<close>, and for \<open>For = 0\<close>. The
  hypotheses hold for every rule with \<open>For\<close> not negative and a positive
  \<open>IntervalSeconds\<close> (\<open>numBuckets_positive\<close>).
\<close>

theorem TrimResults_keeps_latest:
  assumes "IntervalSeconds alertRule \<noteq> 0" and "0 \<le> sint (numBuckets alertRule)"
  shows "(\<exists>a'. TrimResults a alertRule = Returned a' \<and>
       a' = a\<lparr>Results := Results a'\<rparr> \<and>
       (int (length (Results a)) < sint (numBuckets alertRule) \<longrightarrow>
          Results a' = Results a) \<and>
       (sint (numBuckets alertRule) \<le> int (length (Results a)) \<longrightarrow>
          Results a' = drop (length (Results a) - nat (sint (numBuckets alertRule))) (Results a) \<and>
          int (length (Results a')) = sint (numBuckets alertRule))) \<and>
     (0 \<le> sint (For alertRule) \<longrightarrow>
        sint (numBuckets alertRule) =
          (let c = 2 * (sint (int64_of_float64 (Duration_Seconds (For alertRule)))
                        sdiv sint (IntervalSeconds alertRule))
           in if c = 0 then 10 else c)) \<and>
     (0 \<le> sint (For alertRule) \<and> sint (For alertRule) < 16777216 * 1000000000 \<longrightarrow>
        sint (numBuckets alertRule) =
          (let c = 2 * ((sint (For alertRule) div 1000000000)
                        sdiv sint (IntervalSeconds alertRule))
           in if c = 0 then 10 else c)) \<and>
     (For alertRule = 300000000000 \<and> IntervalSeconds alertRule = 60 \<longrightarrow>
        numBuckets alertRule = 10) \<and>
     (For alertRule = 0 \<longrightarrow> numBuckets alertRule = 10)"
proof -
  have "\<exists>a'. TrimResults a alertRule = Returned a' \<and>
       a' = a\<lparr>Results := Results a'\<rparr> \<and>
       (int (length (Results a)) < sint (numBuckets alertRule) \<longrightarrow>
          Results a' = Results a) \<and>
       (sint (numBuckets alertRule) \<le> int (length (Results a)) \<longrightarrow>
          Results a' = drop (length (Results a) - nat (sint (numBuckets alertRule))) (Results a) \<and>
          int (length (Results a')) = sint (numBuckets alertRule))"
    using assms by (auto simp add: TrimResults_def)
  then show ?thesis
    using sint_numBuckets [of alertRule] numBuckets_closed_form [of alertRule]
      numBuckets_five_minutes [of alertRule] numBuckets_For_zero [of alertRule]
    by (intro conjI impI) simp_all
qed

text \<open>
  The history of fifteen entries is cut to its last ten, under either rule; a history
  of nine entries is kept; with \<open>For\<close> of ninety seconds the capacity is 2 and the last
  two entries are kept.
\<close>

theorem TrimResults_keeps_latest_witness:
  "(\<exists>a'. TrimResults (exampleState\<lparr>Results := exampleHistory\<rparr>) exampleRule = Returned a' \<and>
      Results a' = drop 5 exampleHistory \<and> length (Results a') = 10) \<and>
   (\<exists>a'. TrimResults (exampleState\<lparr>Results := exampleHistory\<rparr>) (exampleRule\<lparr>For := 0\<rparr>)
        = Returned a' \<and>
      Results a' = drop 5 exampleHistory \<and> length (Results a') = 10) \<and>
   (\<exists>a'. TrimResults (exampleState\<lparr>Results := take 9 exampleHistory\<rparr>) exampleRule
        = Returned a' \<and>
      Results a' = take 9 exampleHistory) \<and>
   sint (numBuckets (exampleRule\<lparr>For := 90000000000\<rparr>)) = 2 \<and>
   (\<exists>a'. TrimResults (exampleState\<lparr>Results := exampleHistory\<rparr>)
        (exampleRule\<lparr>For := 90000000000\<rparr>) = Returned a' \<and>
      Results a' = drop 13 exampleHistory \<and> length (Results a') = 2)"
proof -
  have n1: "numBuckets exampleRule = 10"
    by (simp add: numBuckets_five_minutes exampleRule_def)
  have n2: "numBuckets (exampleRule\<lparr>For := 0\<rparr>) = 10"
    by (simp add: numBuckets_For_zero)
  have n3: "0 \<le> sint (numBuckets (exampleRule\<lparr>For := 90000000000\<rparr>))"
    by (simp add: numBuckets_truncates)
  have i: "IntervalSeconds exampleRule \<noteq> 0" "IntervalSeconds (exampleRule\<lparr>For := 0\<rparr>) \<noteq> 0"
    "IntervalSeconds (exampleRule\<lparr>For := 90000000000\<rparr>) \<noteq> 0"
    by (simp_all add: exampleRule_def)
  have len: "length exampleHistory = 15"
    by (simp add: exampleHistory_def)
  have c1: "\<exists>a'. TrimResults (exampleState\<lparr>Results := exampleHistory\<rparr>) exampleRule
        = Returned a' \<and> Results a' = drop 5 exampleHistory \<and> length (Results a') = 10"
    using TrimResults_keeps_latest [of exampleRule "exampleState\<lparr>Results := exampleHistory\<rparr>"]
    by (simp add: n1 i len) blast
  have c2: "\<exists>a'. TrimResults (exampleState\<lparr>Results := exampleHistory\<rparr>)
        (exampleRule\<lparr>For := 0\<rparr>)
        = Returned a' \<and> Results a' = drop 5 exampleHistory \<and> length (Results a') = 10"
    using TrimResults_keeps_latest [of "exampleRule\<lparr>For := 0\<rparr>"
        "exampleState\<lparr>Results := exampleHistory\<rparr>"]
    by (simp add: n2 i len) blast
  have c3: "\<exists>a'. TrimResults (exampleState\<lparr>Results := take 9 exampleHistory\<rparr>) exampleRule
        = Returned a' \<and> Results a' = take 9 exampleHistory"
    using TrimResults_keeps_latest [of exampleRule
        "exampleState\<lparr>Results := take 9 exampleHistory\<rparr>"]
    by (simp add: n1 i len) blast
  have c4: "sint (numBuckets (exampleRule\<lparr>For := 90000000000\<rparr>)) = 2"
    using TrimResults_keeps_latest [OF i(3) n3, of exampleState]
    by (simp add: exampleRule_def signed_divide_int_def)
  have c5: "\<exists>a'. TrimResults (exampleState\<lparr>Results := exampleHistory\<rparr>)
        (exampleRule\<lparr>For := 90000000000\<rparr>) = Returned a' \<and>
      Results a' = drop 13 exampleHistory \<and> length (Results a') = 2"
    using TrimResults_keeps_latest [OF i(3) n3, of "exampleState\<lparr>Results := exampleHistory\<rparr>"]
    by (simp add: c4 len) blast
  from c1 c2 c3 c4 c5 show ?thesis by (intro conjI)
qed

text \<open>
  C6 as stated fails for a rule with \<open>IntervalSeconds = 0\<close>: the integer division
  panics, and no history is computed.
\<close>

theorem TrimResults_zero_interval_counterexample:
  "TrimResults (exampleState\<lparr>Results := exampleHistory\<rparr>) (exampleRule\<lparr>IntervalSeconds := 0\<rparr>)
     = Panicked IntegerDivideByZero (exampleState\<lparr>Results := exampleHistory\<rparr>)"
  by (simp add: TrimResults_def exampleRule_def)

text \<open>
  It fails also where the capacity is negative (here \<open>- 2\<close>, for \<open>For\<close> of minus one
  minute): the length is never below it, and \<open>make\<close> panics.
\<close>

lemma Seconds_minus_one_minute: "int64_of_float64 (Duration_Seconds (- 60000000000)) = - 60"
  by code_simp

lemma TrimResults_negative_capacity:
  "TrimResults exampleState (exampleRule\<lparr>For := - 60000000000\<rparr>)
     = Panicked MakeSliceLenOutOfRange exampleState"
  by (simp add: TrimResults_def numBuckets_def exampleRule_def exampleState_def
      Seconds_minus_one_minute signed_divide_int_def)

subsection \<open>Equality\<close>

text \<open>
  The rendering depends on the entries of the map only: the sorted keys are the sorted
  domain.
\<close>

lemma sort_keys: "sort (keys l) = sorted_list_of_set (dom (entries l))"
proof (cases l)
  case None
  then show ?thesis by (simp add: keys_def entries_def)
next
  case (Some xs)
  have "sort (remdups (map fst xs)) = sorted_list_of_set (set (map fst xs))"
    by (simp only: sorted_list_of_set_sort_remdups)
  with Some show ?thesis
    by (simp add: keys_def entries_def dom_map_of_conv_image_fst)
qed

lemma Labels_String_entries:
  "Labels_String l = join (map (\<lambda>k. k @ ''='' @ (case entries l k of None \<Rightarrow> [] | Some v \<Rightarrow> v))
                              (sorted_list_of_set (dom (entries l))))"
  by (simp add: Labels_String_def sort_keys index_def)

lemma Labels_String_cong:
  "entries l = entries l' \<Longrightarrow> Labels_String l = Labels_String l'"
  by (simp add: Labels_String_entries)




text \<open>
  Times at the same instant are not enough: with another location pointer, or with a
  monotonic reading on one side only, the states are not equal for \<open>Equals\<close>.
\<close>

lemma Equals_other_location:
  "\<not> Equals (withTimes exampleState utcWall)
            (withTimes exampleState (utcWall\<lparr>location := Some 1\<rparr>))"
  by (simp add: Equals_def withTimes_def State.defs utcWall_def)

lemma Equals_other_monotonic:
  "\<not> Equals (withTimes exampleState localClock)
            (withTimes exampleState (localClock\<lparr>monotonic := None\<rparr>))"
  by (simp add: Equals_def withTimes_def State.defs localClock_def)

text \<open>The rendering of the two label maps, sorted by key.\<close>

lemma Labels_String_example:
  "Labels_String labelsAB = ''alertname=cpu, job=node'' \<and>
   Labels_String labelsBA = ''alertname=cpu, job=node''"
  by (simp add: Labels_String_def labelsAB_def labelsBA_def keys_def index_def entries_def)

text \<open>Association lists with distinct keys and the same pairs render the same.\<close>

lemma Labels_String_insertion_order:
  assumes "distinct (map fst xs)" and "distinct (map fst ys)" and "set xs = set ys"
  shows "Labels_String (Some xs) = Labels_String (Some ys)"
proof -
  have "map_of xs = map_of ys"
    using assms by (simp add: map_of_inject_set)
  then show ?thesis
    by (intro Labels_String_cong) (simp add: entries_def)
qed

end
